theory Spec2Isabelle
  imports Complex_Main
begin

section \<open>The graph store\<close>

text \<open>
  The handlers of the memory server talk to a property graph through Cypher statements.
  The store is modelled as a list of nodes and a list of relationships. The program never
  deletes a node, so a node is identified by its position in the node list, and a
  relationship names its end points by position.

  Property values are the JSON-like values the statements read and write. JavaScript
  numbers are modelled as exact reals, instants (Cypher \<open>datetime\<close> values) as
  integers on one time line, and a property that is absent reads as \<open>VNull\<close>,
  as in Cypher.
\<close>

datatype val =
    VNull
  | VNum real
  | VStr string
  | VTime int
  | VList "val list"
  | VMap "(string \<times> val) list"

type_synonym props = "(string \<times> val) list"

record node =
  labels :: "string list"
  nprops :: props

record relationship =
  rtype :: string
  rsrc :: nat
  rdst :: nat
  rprops :: props

record graph =
  nodes :: "node list"
  rels :: "relationship list"

datatype error =
    ValidationError string
  | TypeError
  | StoreError
  | SyntaxError
  | ConstraintError
  | EmbeddingError

text \<open>Reading a property: an absent key is null.\<close>

definition getp :: "props \<Rightarrow> string \<Rightarrow> val" where
  "getp ps k = (case map_of ps k of None \<Rightarrow> VNull | Some v \<Rightarrow> v)"

text \<open>\<open>SET x.k = v\<close>: the old value is replaced; setting null removes the property.\<close>

definition setp :: "string \<Rightarrow> val \<Rightarrow> props \<Rightarrow> props" where
  "setp k v ps =
     (if v = VNull then filter (\<lambda>kv. fst kv \<noteq> k) ps
      else (k, v) # filter (\<lambda>kv. fst kv \<noteq> k) ps)"

text \<open>A property map literal \<open>{k: v, ...}\<close> of a \<open>CREATE\<close>: null entries are not stored.\<close>

definition mkprops :: "props \<Rightarrow> props" where
  "mkprops kvs = filter (\<lambda>kv. snd kv \<noteq> VNull) kvs"

definition nprop :: "graph \<Rightarrow> nat \<Rightarrow> string \<Rightarrow> val" where
  "nprop g n k = getp (nprops (nodes g ! n)) k"

definition has_label :: "graph \<Rightarrow> string \<Rightarrow> nat \<Rightarrow> bool" where
  "has_label g l n = (l \<in> set (labels (nodes g ! n)))"

definition all_nodes :: "graph \<Rightarrow> nat list" where
  "all_nodes g = [0..<length (nodes g)]"

text \<open>\<open>MATCH (x {id: $v})\<close>: every node, of any label, whose \<open>id\<close> is the string.\<close>

definition match_id :: "graph \<Rightarrow> string \<Rightarrow> nat list" where
  "match_id g i = filter (\<lambda>n. nprop g n ''id'' = VStr i) (all_nodes g)"

text \<open>
  \<open>MATCH (x:L {k1: $v1, ...})\<close>: the nodes of label \<open>L\<close> that carry each of the
  given properties. A null never equals anything, so a null in the pattern matches nothing.
\<close>

definition node_matches :: "graph \<Rightarrow> string \<Rightarrow> props \<Rightarrow> nat \<Rightarrow> bool" where
  "node_matches g l kvs n =
     (has_label g l n \<and> list_all (\<lambda>kv. snd kv \<noteq> VNull \<and> nprop g n (fst kv) = snd kv) kvs)"

definition match_nodes :: "graph \<Rightarrow> string \<Rightarrow> props \<Rightarrow> nat list" where
  "match_nodes g l kvs = filter (node_matches g l kvs) (all_nodes g)"

text \<open>\<open>MATCH (e:Event {id: $eventId})\<close>.\<close>

definition events_with_id :: "graph \<Rightarrow> string \<Rightarrow> nat list" where
  "events_with_id g i = match_nodes g ''Event'' [(''id'', VStr i)]"

text \<open>\<open>CREATE\<close> of a node and of a relationship: appended to the store.\<close>

definition add_node :: "node \<Rightarrow> graph \<Rightarrow> graph" where
  "add_node n g = g\<lparr>nodes := nodes g @ [n]\<rparr>"

definition add_rel :: "relationship \<Rightarrow> graph \<Rightarrow> graph" where
  "add_rel r g = g\<lparr>rels := rels g @ [r]\<rparr>"

text \<open>
  \<open>MERGE (x:L {keys}) ON CREATE SET extra\<close>: binds every node that matches; when none
  does, creates one and binds it. The result is the store and the bound nodes.
\<close>

definition merge_node :: "string \<Rightarrow> props \<Rightarrow> props \<Rightarrow> graph \<Rightarrow> graph \<times> nat list" where
  "merge_node l keys extra g =
     (let ms = match_nodes g l keys
      in if ms = [] then
           (add_node \<lparr>labels = [l], nprops = mkprops (keys @ extra)\<rparr> g, [length (nodes g)])
         else (g, ms))"

text \<open>\<open>MERGE (a)-[:T]->(b)\<close> on two bound nodes: created unless one is there.\<close>

definition has_rel :: "graph \<Rightarrow> string \<Rightarrow> nat \<Rightarrow> nat \<Rightarrow> bool" where
  "has_rel g t a b = (\<exists>r \<in> set (rels g). rtype r = t \<and> rsrc r = a \<and> rdst r = b)"

definition merge_rel :: "string \<Rightarrow> nat \<Rightarrow> nat \<Rightarrow> graph \<Rightarrow> graph" where
  "merge_rel t a b g =
     (if has_rel g t a b then g
      else add_rel \<lparr>rtype = t, rsrc = a, rdst = b, rprops = []\<rparr> g)"

text \<open>\<open>collect(DISTINCT ...)\<close>: each value once, in the order of first occurrence.\<close>

definition nub :: "'a list \<Rightarrow> 'a list" where
  "nub xs = rev (remdups (rev xs))"

subsection \<open>JavaScript coercions used on the arguments\<close>

text \<open>\<open>x || null\<close> on an optional number: \<open>undefined\<close>, \<open>0\<close> become null.\<close>

definition num_or_null :: "real option \<Rightarrow> val" where
  "num_or_null x = (case x of None \<Rightarrow> VNull | Some r \<Rightarrow> (if r = 0 then VNull else VNum r))"

text \<open>\<open>s || null\<close> on an optional string: \<open>undefined\<close> and the empty string become null.\<close>

definition str_or_null :: "string option \<Rightarrow> val" where
  "str_or_null x = (case x of None \<Rightarrow> VNull | Some s \<Rightarrow> (if s = [] then VNull else VStr s))"

subsection \<open>Cypher expressions on values\<close>

text \<open>\<open>coalesce(a, b)\<close>.\<close>

definition coalesce :: "val \<Rightarrow> val \<Rightarrow> val" where
  "coalesce a b = (if a = VNull then b else a)"

text \<open>\<open>a + b\<close> on numbers; anything else (in particular a null operand) is null here.\<close>

fun cy_add :: "val \<Rightarrow> val \<Rightarrow> val" where
  "cy_add (VNum a) (VNum b) = VNum (a + b)"
| "cy_add _ _ = VNull"

fun cy_mul :: "val \<Rightarrow> val \<Rightarrow> val" where
  "cy_mul (VNum a) (VNum b) = VNum (a * b)"
| "cy_mul _ _ = VNull"

text \<open>\<open>list + element\<close>: appends to a list; null as the list gives null.\<close>

fun cy_append :: "val \<Rightarrow> val \<Rightarrow> val" where
  "cy_append (VList xs) x = VList (xs @ [x])"
| "cy_append _ _ = VNull"

section \<open>Bond evolution (\<open>handleEvolveBond\<close>)\<close>

record bond_args =
  from_entity_id :: string
  to_entity_id :: string
  new_strength :: real
  emotional_resonance :: "real option"
  milestone :: "string option"
  interaction_context :: "string option"

text \<open>The parameter object handed to the statement.\<close>

record bond_params =
  p_fromId :: string
  p_toId :: string
  p_newStrength :: val
  p_emotionalResonance :: val
  p_milestone :: val
  p_context :: val

definition bond_params_of :: "bond_args \<Rightarrow> bond_params" where
  "bond_params_of a =
     \<lparr> p_fromId = from_entity_id a,
       p_toId = to_entity_id a,
       p_newStrength = VNum (new_strength a),
       p_emotionalResonance = num_or_null (emotional_resonance a),
       p_milestone = str_or_null (milestone a),
       p_context = str_or_null (interaction_context a) \<rparr>"

definition is_bond :: "nat \<Rightarrow> nat \<Rightarrow> relationship \<Rightarrow> bool" where
  "is_bond a b r = (rtype r = ''BOND'' \<and> rsrc r = a \<and> rdst r = b)"

text \<open>\<open>ON CREATE SET\<close>: the properties of a bond that the statement creates.\<close>

definition bond_on_create :: "bond_params \<Rightarrow> int \<Rightarrow> props" where
  "bond_on_create p now =
     mkprops
      [(''strength'', p_newStrength p),
       (''emotional_resonance'', p_emotionalResonance p),
       (''interaction_count'', VNum 1),
       (''first_interaction'', VTime now),
       (''last_interaction'', VTime now),
       (''milestones'', (if p_milestone p \<noteq> VNull then VList [p_milestone p] else VList [])),
       (''evolution_trajectory'',
          VList [VMap [(''timestamp'', VTime now),
                       (''strength'', p_newStrength p),
                       (''context'', p_context p)]])]"

text \<open>\<open>ON MATCH SET\<close>: every right-hand side reads the bond as it was matched.\<close>

definition bond_on_match :: "bond_params \<Rightarrow> int \<Rightarrow> props \<Rightarrow> props" where
  "bond_on_match p now b =
     setp ''evolution_trajectory''
       (cy_append (getp b ''evolution_trajectory'')
          (VMap [(''timestamp'', VTime now),
                 (''strength'', p_newStrength p),
                 (''emotional_resonance'', p_emotionalResonance p),
                 (''context'', p_context p)]))
     (setp ''milestones''
       (if p_milestone p \<noteq> VNull then cy_append (getp b ''milestones'') (p_milestone p)
        else getp b ''milestones'')
     (setp ''last_interaction'' (VTime now)
     (setp ''interaction_count'' (cy_add (getp b ''interaction_count'') (VNum 1))
     (setp ''emotional_resonance''
        (coalesce (p_emotionalResonance p) (getp b ''emotional_resonance''))
     (setp ''strength'' (p_newStrength p) b)))))"

text \<open>
  \<open>MERGE (from)-[b:BOND]->(to)\<close> for one row \<open>(from, to)\<close>: when bonds between the two
  nodes exist, each of them is bound and updated; otherwise one is created. The second
  component is the list of bonds bound by the row, which \<open>RETURN b\<close> yields.
\<close>

definition merge_bond :: "bond_params \<Rightarrow> int \<Rightarrow> nat \<times> nat \<Rightarrow> relationship list \<Rightarrow> relationship list \<times> relationship list" where
  "merge_bond p now ft rs =
     (if \<exists>r \<in> set rs. is_bond (fst ft) (snd ft) r then
        (let rs' = map (\<lambda>r. if is_bond (fst ft) (snd ft) r
                              then r\<lparr>rprops := bond_on_match p now (rprops r)\<rparr> else r) rs
         in (rs', filter (is_bond (fst ft) (snd ft)) rs'))
      else
        (let b = \<lparr>rtype = ''BOND'', rsrc = fst ft, rdst = snd ft,
                  rprops = bond_on_create p now\<rparr>
         in (rs @ [b], [b])))"

text \<open>The rows are merged one after the other; a later row sees what an earlier one wrote.\<close>

fun merge_bonds :: "bond_params \<Rightarrow> int \<Rightarrow> (nat \<times> nat) list \<Rightarrow> relationship list \<Rightarrow> relationship list \<times> (nat \<times> nat \<times> relationship) list" where
  "merge_bonds p now [] rs = (rs, [])"
| "merge_bonds p now (ft # fts) rs =
     (let (rs1, bs) = merge_bond p now ft rs;
          (rs2, out) = merge_bonds p now fts rs1
      in (rs2, map (\<lambda>b. (fst ft, snd ft, b)) bs @ out))"

text \<open>
  The statement of \<open>handleEvolveBond\<close>:
  \<open>MATCH (from {id: $fromId}) MATCH (to {id: $toId}) MERGE (from)-[b:BOND]->(to) ... RETURN b,
  from.name AS from_name, to.name AS to_name\<close>.
\<close>

definition bond_rows :: "graph \<Rightarrow> bond_params \<Rightarrow> (nat \<times> nat) list" where
  "bond_rows g p = concat (map (\<lambda>f. map (\<lambda>t. (f, t)) (match_id g (p_toId p))) (match_id g (p_fromId p)))"

definition run_evolve_bond :: "int \<Rightarrow> graph \<Rightarrow> bond_params \<Rightarrow> graph \<times> (nat \<times> nat \<times> relationship) list" where
  "run_evolve_bond now g p =
     (let (rs, out) = merge_bonds p now (bond_rows g p) (rels g)
      in (g\<lparr>rels := rs\<rparr>, out))"

record bond_view =
  bv_strength :: val
  bv_emotional_resonance :: val
  bv_interaction_count :: val
  bv_first_interaction :: val
  bv_last_interaction :: val
  bv_milestones :: val
  bv_trajectory_length :: nat

record bond_result =
  br_from :: val
  br_to :: val
  br_bond :: bond_view

text \<open>
  The handler reads \<open>result.records[0]\<close>; with no record, and with a bond whose
  \<open>evolution_trajectory\<close> is not a list, the property access throws a TypeError. The
  statement runs in an auto-commit transaction, so what it wrote stays written.
\<close>

definition handleEvolveBond :: "int \<Rightarrow> graph \<Rightarrow> bond_args \<Rightarrow> graph \<times> (error + bond_result)" where
  "handleEvolveBond now g args =
     (let (g', records) = run_evolve_bond now g (bond_params_of args)
      in (g',
          (case records of
             [] \<Rightarrow> Inl TypeError
           | (f, t, b) # _ \<Rightarrow>
               (case getp (rprops b) ''evolution_trajectory'' of
                  VList tr \<Rightarrow>
                    Inr \<lparr> br_from = nprop g' f ''name'',
                          br_to = nprop g' t ''name'',
                          br_bond =
                            \<lparr> bv_strength = getp (rprops b) ''strength'',
                              bv_emotional_resonance = getp (rprops b) ''emotional_resonance'',
                              bv_interaction_count = getp (rprops b) ''interaction_count'',
                              bv_first_interaction = getp (rprops b) ''first_interaction'',
                              bv_last_interaction = getp (rprops b) ''last_interaction'',
                              bv_milestones = getp (rprops b) ''milestones'',
                              bv_trajectory_length = length tr \<rparr> \<rparr>
                | _ \<Rightarrow> Inl TypeError))))"

text \<open>The bonds from one node to another, as stored.\<close>

definition bonds :: "graph \<Rightarrow> nat \<Rightarrow> nat \<Rightarrow> relationship list" where
  "bonds g a b = filter (is_bond a b) (rels g)"

section \<open>The write transactions\<close>

text \<open>
  Both write handlers open a transaction, issue one statement after the other with
  \<open>tx.run\<close>, and commit; any exception rolls the transaction back. A statement is
  modelled by a constructor that carries the parameters the handler binds, and
  \<open>exec_stmt\<close> gives what the statement's Cypher text does to the store.
\<close>

datatype stmt =
    CreateEvent string int string real real string val val "real list"
  | CreateInvolves string string string real
  | CreatePreceded string string
  | CreateConsolidated string string real string
  | CreateEpisode string int string string
  | MergePlace string string
  | MergePerson string string
  | MergeAgent string string
  | MergeCatalyst string string
  | MergeInvolvedEntity string string string string val
  | MergeProducedEntity string string string string val
  | CreateEffect string string string string string real

text \<open>\<open>duration.between(a, b)\<close> of two instants; null when one of them is missing.\<close>

fun cy_duration :: "val \<Rightarrow> val \<Rightarrow> val" where
  "cy_duration (VTime a) (VTime b) = VNum (real_of_int (b - a))"
| "cy_duration _ _ = VNull"

text \<open>All pairs of two lists of matches, the rows of two successive \<open>MATCH\<close> clauses.\<close>

definition pairs :: "'a list \<Rightarrow> 'b list \<Rightarrow> ('a \<times> 'b) list" where
  "pairs xs ys = concat (map (\<lambda>x. map (\<lambda>y. (x, y)) ys) xs)"

text \<open>
  \<open>MATCH (e:Event {id: $eventId}) MERGE (x:L {keys}) ON CREATE SET extra MERGE\<close> of a
  relationship of type \<open>t\<close> between \<open>e\<close> and \<open>x\<close>: direction \<open>True\<close> is
  \<open>(e)-[:t]->(x)\<close>, \<open>False\<close> is \<open>(x)-[:t]->(e)\<close>. The rows are processed in turn.
\<close>

definition link_row :: "string \<Rightarrow> props \<Rightarrow> props \<Rightarrow> string \<Rightarrow> bool \<Rightarrow> nat \<Rightarrow> graph \<Rightarrow> graph" where
  "link_row l keys extra t out e g =
     (let (g1, xs) = merge_node l keys extra g
      in fold (\<lambda>x. if out then merge_rel t e x else merge_rel t x e) xs g1)"

definition merge_link :: "string \<Rightarrow> string \<Rightarrow> props \<Rightarrow> props \<Rightarrow> string \<Rightarrow> bool \<Rightarrow> graph \<Rightarrow> graph" where
  "merge_link eventId l keys extra t out g =
     fold (link_row l keys extra t out) (events_with_id g eventId) g"

text \<open>
  One row of the effect statement: \<open>MERGE (t:Target {id, kind}) CREATE (f:Effect {...})
  MERGE (e)-[:HAD_EFFECT_ON]->(f) MERGE (f)-[:WITH_RESPECT_TO]->(t)\<close>. The effect is
  created once for each target the \<open>MERGE\<close> binds.
\<close>

definition effect_target :: "props \<Rightarrow> nat \<Rightarrow> nat \<Rightarrow> graph \<Rightarrow> graph" where
  "effect_target fprops e t g =
     (let f = length (nodes g);
          g1 = add_node \<lparr>labels = [''Effect''], nprops = mkprops fprops\<rparr> g;
          g2 = merge_rel ''HAD_EFFECT_ON'' e f g1
      in merge_rel ''WITH_RESPECT_TO'' f t g2)"

definition effect_row :: "props \<Rightarrow> props \<Rightarrow> nat \<Rightarrow> graph \<Rightarrow> graph" where
  "effect_row tkeys fprops e g =
     (let (g1, ts) = merge_node ''Target'' tkeys [] g
      in fold (effect_target fprops e) ts g1)"

text \<open>
  The uniqueness constraint \<open>event_id\<close> that the set-up scripts install
  (\<open>REQUIRE e.id IS UNIQUE\<close> on \<open>Event\<close>) makes the creation of a second Event of
  one id fail.
\<close>

definition create_event_node :: "string \<Rightarrow> props \<Rightarrow> graph \<Rightarrow> error + graph" where
  "create_event_node i ps g =
     (if events_with_id g i \<noteq> [] then Inl ConstraintError
      else Inr (add_node \<lparr>labels = [''Event''], nprops = mkprops ps\<rparr> g))"

fun exec_stmt :: "stmt \<Rightarrow> graph \<Rightarrow> error + graph" where
  "exec_stmt (CreateEvent i ts ty valence sig summary content glyph_enc emb) g =
     create_event_node i
       [(''id'', VStr i), (''timestamp'', VTime ts), (''type'', VStr ty),
        (''emotional_valence'', VNum valence), (''significance'', VNum sig),
        (''context_summary'', VStr summary), (''full_content'', content),
        (''glyph_encoding'', glyph_enc), (''embedding'', VList (map VNum emb)),
        (''embedding_model'', VStr ''text-embedding-3-small'')] g"
| "exec_stmt (CreateInvolves eventId entityId role salience) g =
     Inr (fold (\<lambda>(e, x). add_rel \<lparr>rtype = ''INVOLVES'', rsrc = e, rdst = x,
                   rprops = mkprops [(''role'', VStr role), (''salience'', VNum salience)]\<rparr>)
            (pairs (events_with_id g eventId) (match_id g entityId)) g)"
| "exec_stmt (CreatePreceded precedingId eventId) g =
     Inr (fold (\<lambda>(e1, e2). add_rel \<lparr>rtype = ''PRECEDED'', rsrc = e1, rdst = e2,
                   rprops = mkprops
                     [(''temporal_distance'',
                         cy_duration (nprop g e1 ''timestamp'') (nprop g e2 ''timestamp'')),
                      (''causal_strength'', VNum (8 / 10))]\<rparr>)
            (pairs (events_with_id g precedingId) (events_with_id g eventId)) g)"
| "exec_stmt (CreateConsolidated eventId targetId strength ty) g =
     Inr (fold (\<lambda>(e, x). add_rel \<lparr>rtype = ''CONSOLIDATED_TO'', rsrc = e, rdst = x,
                   rprops = mkprops [(''strength'', VNum strength),
                                     (''consolidation_type'', VStr ty),
                                     (''rehearsal_count'', VNum 1)]\<rparr>)
            (pairs (events_with_id g eventId) (match_id g targetId)) g)"
| "exec_stmt (CreateEpisode i happenedAt title description) g =
     create_event_node i
       [(''id'', VStr i), (''happened_at'', VTime happenedAt), (''title'', VStr title),
        (''description'', VStr description)] g"
| "exec_stmt (MergePlace eventId placeName) g =
     Inr (merge_link eventId ''Place'' [(''name'', VStr placeName)] [] ''HELD_AT'' True g)"
| "exec_stmt (MergePerson eventId name) g =
     Inr (merge_link eventId ''Person'' [(''name'', VStr name)] [] ''PARTICIPATED_IN'' False g)"
| "exec_stmt (MergeAgent eventId agentId) g =
     Inr (merge_link eventId ''Agent'' [(''id'', VStr agentId)] [] ''PARTICIPATED_IN'' False g)"
| "exec_stmt (MergeCatalyst eventId reason) g =
     Inr (merge_link eventId ''Catalyst'' [(''description'', VStr reason)] [] ''CATALYZED_BY'' True g)"
| "exec_stmt (MergeInvolvedEntity eventId entityId name kind meta) g =
     Inr (merge_link eventId ''Entity'' [(''id'', VStr entityId)]
            [(''name'', VStr name), (''kind'', VStr kind), (''meta'', meta)] ''INVOLVED_IN'' False g)"
| "exec_stmt (MergeProducedEntity eventId entityId name kind meta) g =
     Inr (merge_link eventId ''Entity'' [(''id'', VStr entityId)]
            [(''name'', VStr name), (''kind'', VStr kind), (''meta'', meta)] ''PRODUCED'' True g)"
| "exec_stmt (CreateEffect eventId targetId targetKind summary valence intensity) g =
     Inr (fold (effect_row [(''id'', VStr targetId), (''kind'', VStr targetKind)]
                  [(''summary'', VStr summary), (''valence'', VStr valence),
                   (''intensity'', VNum intensity)])
            (events_with_id g eventId) g)"

text \<open>
  What the driver is asked to do, in order, and the environment of a handler: the clock,
  the id generated for a new Event, the embedding provider (\<open>None\<close> when it fails), the
  vector index of the store (\<open>db.index.vector.queryNodes\<close>, which yields nodes with a
  similarity score, or fails), and \<open>store_fails\<close>, which says which calls to the store
  raise: call \<open>i\<close> of a transaction is its \<open>i\<close>-th \<open>tx.run\<close>, counted from 0.
\<close>

datatype action =
    BeginTx
  | Embed string
  | Run stmt
  | CommitTx
  | RollbackTx
  | ReadBack
  | CloseSession

record env =
  clock :: int
  fresh_id :: string
  generateEmbedding :: "string \<Rightarrow> real list option"
  vector_index :: "graph \<Rightarrow> int \<Rightarrow> real list \<Rightarrow> (nat \<times> real) list option"
  store_fails :: "nat \<Rightarrow> bool"

text \<open>
  The statements of a transaction, run in order on its working copy of the store. The
  result is the calls made and either the error that stopped the run or the working copy.
\<close>

fun run_stmts :: "(nat \<Rightarrow> bool) \<Rightarrow> nat \<Rightarrow> stmt list \<Rightarrow> graph \<Rightarrow> action list \<times> (error + graph)" where
  "run_stmts fl i [] g = ([], Inr g)"
| "run_stmts fl i (s # ss) g =
     (if fl i then ([Run s], Inl StoreError)
      else (case exec_stmt s g of
              Inl e \<Rightarrow> ([Run s], Inl e)
            | Inr g' \<Rightarrow> (let (tr, r) = run_stmts fl (Suc i) ss g' in (Run s # tr, r))))"

text \<open>
  \<open>try { ...tx.run...; await tx.commit() } catch { await tx.rollback(); throw }\<close>:
  the store after the transaction is the working copy when every statement and the commit
  went through, and the store as it was before otherwise.
\<close>

definition run_tx :: "(nat \<Rightarrow> bool) \<Rightarrow> stmt list \<Rightarrow> graph \<Rightarrow> action list \<times> graph \<times> (error + unit)" where
  "run_tx fl ss g =
     (case run_stmts fl 0 ss g of
        (tr, Inl e) \<Rightarrow> (tr @ [RollbackTx], g, Inl e)
      | (tr, Inr g') \<Rightarrow>
          (if fl (length ss) then (tr @ [CommitTx, RollbackTx], g, Inl StoreError)
           else (tr @ [CommitTx], g', Inr ())))"

text \<open>The outcome of the statements when no call to the store raises.\<close>

definition exec_all :: "stmt list \<Rightarrow> graph \<Rightarrow> error + graph" where
  "exec_all ss g = snd (run_stmts (\<lambda>_. False) 0 ss g)"

section \<open>Encoding an event (\<open>handleEncodeMemory\<close>)\<close>

record event_in =
  ev_type :: string
  ev_timestamp :: "int option"
  ev_emotional_valence :: real
  ev_significance :: real
  ev_context_summary :: string
  ev_full_content :: "string option"
  ev_glyph :: "string option"

record involvement =
  entity_id :: string
  role :: string
  salience :: real

record consolidation =
  target_id :: string
  strength :: real
  consolidation_type :: string

record encode_args =
  event :: event_in
  involves :: "involvement list"
  precedes :: "string list"
  consolidates_to :: "consolidation list"

record encode_result =
  er_event_id :: string
  er_timestamp :: val
  er_type :: val
  er_emotional_valence :: val
  er_significance :: val
  er_context_summary :: val
  er_involves :: "(nat \<times> val \<times> val) list"
  er_preceded_by :: "val list"
  er_consolidations :: "(val \<times> val \<times> val) list"
  er_nodes_created :: nat
  er_relationships_created :: nat

text \<open>JavaScript truthiness of a value read from a record.\<close>

fun truthy :: "val \<Rightarrow> bool" where
  "truthy VNull = False"
| "truthy (VStr s) = (s \<noteq> [])"
| "truthy (VNum x) = (x \<noteq> 0)"
| "truthy _ = True"

text \<open>
  The text that is embedded: the summary, followed by a blank line and the full content
  when there is one.
\<close>

definition embeddingText :: "event_in \<Rightarrow> string" where
  "embeddingText ev =
     (case ev_full_content ev of
        None \<Rightarrow> ev_context_summary ev
      | Some c \<Rightarrow> (if c = [] then ev_context_summary ev
                   else ev_context_summary ev @ [CHR 0x0A, CHR 0x0A] @ c))"

text \<open>The statements the handler issues: the Event, then one statement for each reference.\<close>

definition encode_stmts :: "env \<Rightarrow> encode_args \<Rightarrow> real list \<Rightarrow> stmt list" where
  "encode_stmts env args embedding =
     (let ev = event args;
          eventId = fresh_id env;
          timestamp = (case ev_timestamp ev of None \<Rightarrow> clock env | Some t \<Rightarrow> t)
      in CreateEvent eventId timestamp (ev_type ev) (ev_emotional_valence ev)
           (ev_significance ev) (ev_context_summary ev) (str_or_null (ev_full_content ev))
           (str_or_null (ev_glyph ev)) embedding
         # map (\<lambda>i. CreateInvolves eventId (entity_id i) (role i) (salience i)) (involves args)
         @ map (\<lambda>p. CreatePreceded p eventId) (precedes args)
         @ map (\<lambda>c. CreateConsolidated eventId (target_id c) (strength c) (consolidation_type c))
             (consolidates_to args))"

text \<open>The node that the \<open>CREATE (e:Event {...})\<close> of the handler makes.\<close>

definition event_node :: "env \<Rightarrow> encode_args \<Rightarrow> real list \<Rightarrow> node" where
  "event_node env a emb = 
     \<lparr>labels = [''Event''],
      nprops = mkprops
       [(''id'', VStr (fresh_id env)),
        (''timestamp'', VTime (case ev_timestamp (event a) of None \<Rightarrow> clock env | Some t \<Rightarrow> t)),
        (''type'', VStr (ev_type (event a))),
        (''emotional_valence'', VNum (ev_emotional_valence (event a))),
        (''significance'', VNum (ev_significance (event a))),
        (''context_summary'', VStr (ev_context_summary (event a))),
        (''full_content'', str_or_null (ev_full_content (event a))),
        (''glyph_encoding'', str_or_null (ev_glyph (event a))),
        (''embedding'', VList (map VNum emb)),
        (''embedding_model'', VStr ''text-embedding-3-small'')]\<rparr>"

text \<open>
  The projection read back after the commit, for the Event \<open>e\<close>: the relationships of
  the three kinds that touch it, each collected \<open>DISTINCT\<close>, and filtered for truthy keys
  by the handler.
\<close>

definition read_involves :: "graph \<Rightarrow> nat \<Rightarrow> (nat \<times> val \<times> val) list" where
  "read_involves g e =
     nub (map (\<lambda>r. (rdst r, getp (rprops r) ''role'', getp (rprops r) ''salience''))
            (filter (\<lambda>r. rtype r = ''INVOLVES'' \<and> rsrc r = e) (rels g)))"

definition read_preceded_by :: "graph \<Rightarrow> nat \<Rightarrow> val list" where
  "read_preceded_by g e =
     filter truthy
       (nub (map (\<lambda>r. nprop g (rsrc r) ''id'')
               (filter (\<lambda>r. rtype r = ''PRECEDED'' \<and> rdst r = e) (rels g))))"

definition read_consolidations :: "graph \<Rightarrow> nat \<Rightarrow> (val \<times> val \<times> val) list" where
  "read_consolidations g e =
     filter (\<lambda>c. truthy (fst c))
       (nub (map (\<lambda>r. (nprop g (rdst r) ''id'', getp (rprops r) ''consolidation_type'',
                        getp (rprops r) ''strength''))
               (filter (\<lambda>r. rtype r = ''CONSOLIDATED_TO'' \<and> rsrc r = e) (rels g))))"

definition handleEncodeMemory :: "env \<Rightarrow> graph \<Rightarrow> encode_args \<Rightarrow> action list \<times> graph \<times> (error + encode_result)" where
  "handleEncodeMemory env g args =
     (let ev = event args in
      if ev_emotional_valence ev < - 1 \<or> ev_emotional_valence ev > 1 then
        ([BeginTx, RollbackTx, CloseSession], g,
         Inl (ValidationError ''emotional_valence must be between -1.0 and 1.0''))
      else if ev_significance ev < 0 \<or> ev_significance ev > 1 then
        ([BeginTx, RollbackTx, CloseSession], g,
         Inl (ValidationError ''significance must be between 0.0 and 1.0''))
      else
        (case generateEmbedding env (embeddingText ev) of
           None \<Rightarrow>
             ([BeginTx, Embed (embeddingText ev), RollbackTx, CloseSession], g, Inl EmbeddingError)
         | Some embedding \<Rightarrow>
             (let ss = encode_stmts env args embedding;
                  (tr, g', r) = run_tx (store_fails env) ss g;
                  pre = [BeginTx, Embed (embeddingText ev)] @ tr
              in case r of
                   Inl e \<Rightarrow> (pre @ [CloseSession], g', Inl e)
                 | Inr _ \<Rightarrow>
                     (if store_fails env (Suc (length ss)) then
                        (pre @ [ReadBack, RollbackTx, CloseSession], g', Inl StoreError)
                      else
                        (case events_with_id g' (fresh_id env) of
                           [] \<Rightarrow> (pre @ [ReadBack, RollbackTx, CloseSession], g', Inl TypeError)
                         | e # _ \<Rightarrow>
                             (pre @ [ReadBack, CloseSession], g',
                              Inr \<lparr> er_event_id = fresh_id env,
                                    er_timestamp = nprop g' e ''timestamp'',
                                    er_type = nprop g' e ''type'',
                                    er_emotional_valence = nprop g' e ''emotional_valence'',
                                    er_significance = nprop g' e ''significance'',
                                    er_context_summary = nprop g' e ''context_summary'',
                                    er_involves = read_involves g' e,
                                    er_preceded_by = read_preceded_by g' e,
                                    er_consolidations = read_consolidations g' e,
                                    er_nodes_created = 1,
                                    er_relationships_created =
                                      length (involves args) + length (precedes args)
                                      + length (consolidates_to args) \<rparr>))))))"

section \<open>Writing an episode (\<open>handleWriteEvent\<close>)\<close>

record participant =
  pt_id :: string
  pt_type :: string

record entity_in =
  en_id :: string
  en_name :: string
  en_kind :: string
  en_meta :: "string option"

record effect_in =
  ef_summary :: string
  ef_valence :: string
  ef_intensity :: real
  ef_target_id :: string
  ef_target_kind :: string

record episode_in =
  ep_id :: "string option"
  ep_title :: string
  ep_description :: string
  ep_happened_at :: "int option"
  ep_who :: "participant list"
  ep_why :: "string list"
  ep_what_entities :: "entity_in list"
  ep_what_produced :: "entity_in list"
  ep_where :: "string option"
  ep_effects :: "effect_in list"

record write_result =
  wr_event_id :: string
  wr_timestamp :: int
  wr_title :: string

text \<open>\<open>event.id || generated\<close>: a missing or empty id is replaced by a generated one.\<close>

definition episode_id :: "env \<Rightarrow> episode_in \<Rightarrow> string" where
  "episode_id env ev =
     (case ep_id ev of None \<Rightarrow> fresh_id env | Some i \<Rightarrow> (if i = [] then fresh_id env else i))"

definition who_stmts :: "string \<Rightarrow> participant \<Rightarrow> stmt list" where
  "who_stmts eventId p =
     (if pt_type p = ''person'' then [MergePerson eventId (pt_id p)]
      else if pt_type p = ''agent'' then [MergeAgent eventId (pt_id p)]
      else [])"

definition write_stmts :: "env \<Rightarrow> episode_in \<Rightarrow> stmt list" where
  "write_stmts env ev =
     (let eventId = episode_id env ev;
          happenedAt = (case ep_happened_at ev of None \<Rightarrow> clock env | Some t \<Rightarrow> t)
      in CreateEpisode eventId happenedAt (ep_title ev) (ep_description ev)
         # (case ep_where ev of
              None \<Rightarrow> []
            | Some w \<Rightarrow> (if w = [] then [] else [MergePlace eventId w]))
         @ concat (map (who_stmts eventId) (ep_who ev))
         @ map (MergeCatalyst eventId) (ep_why ev)
         @ map (\<lambda>x. MergeInvolvedEntity eventId (en_id x) (en_name x) (en_kind x)
                       (str_or_null (en_meta x))) (ep_what_entities ev)
         @ map (\<lambda>x. MergeProducedEntity eventId (en_id x) (en_name x) (en_kind x)
                       (str_or_null (en_meta x))) (ep_what_produced ev)
         @ map (\<lambda>f. CreateEffect eventId (ef_target_id f) (ef_target_kind f) (ef_summary f)
                       (ef_valence f) (ef_intensity f)) (ep_effects ev))"

definition handleWriteEvent :: "env \<Rightarrow> graph \<Rightarrow> episode_in \<Rightarrow> action list \<times> graph \<times> (error + write_result)" where
  "handleWriteEvent env g ev =
     (let (tr, g', r) = run_tx (store_fails env) (write_stmts env ev) g
      in (BeginTx # tr @ [CloseSession], g',
          (case r of
             Inl e \<Rightarrow> Inl e
           | Inr _ \<Rightarrow>
               Inr \<lparr> wr_event_id = episode_id env ev,
                     wr_timestamp = (case ep_happened_at ev of None \<Rightarrow> clock env | Some t \<Rightarrow> t),
                     wr_title = ep_title ev \<rparr>)))"

section \<open>Counting nodes\<close>

text \<open>
  Notions used to state and prove how the write statements change the store: whether a
  node satisfies a \<open>(label, properties)\<close> pattern, how many nodes of the store do, the
  node an upserting \<open>MERGE\<close> adds, and for each statement of
  \<open>hippocampus_write_event\<close> the pattern it upserts and the nodes it adds when its event id
  names one Event.
\<close>

definition node_sat :: "node \<Rightarrow> string \<Rightarrow> props \<Rightarrow> bool" where
  "node_sat n l kvs =
     (l \<in> set (labels n)
      \<and> list_all (\<lambda>kv. snd kv \<noteq> VNull \<and> getp (nprops n) (fst kv) = snd kv) kvs)"

definition count_nodes :: "graph \<Rightarrow> string \<Rightarrow> props \<Rightarrow> nat" where
  "count_nodes g l kvs = length (match_nodes g l kvs)"

definition upsert_new :: "graph \<Rightarrow> string \<Rightarrow> props \<Rightarrow> props \<Rightarrow> node list" where
  "upsert_new g l keys extra =
     (if match_nodes g l keys = [] then [\<lparr>labels = [l], nprops = mkprops (keys @ extra)\<rparr>] else [])"

fun merge_key :: "stmt \<Rightarrow> (string \<times> string \<times> props) option" where
  "merge_key (MergePlace e n) = Some (e, ''Place'', [(''name'', VStr n)])"
| "merge_key (MergePerson e n) = Some (e, ''Person'', [(''name'', VStr n)])"
| "merge_key (MergeAgent e i) = Some (e, ''Agent'', [(''id'', VStr i)])"
| "merge_key (MergeCatalyst e c) = Some (e, ''Catalyst'', [(''description'', VStr c)])"
| "merge_key (MergeInvolvedEntity e i n k m) = Some (e, ''Entity'', [(''id'', VStr i)])"
| "merge_key (MergeProducedEntity e i n k m) = Some (e, ''Entity'', [(''id'', VStr i)])"
| "merge_key (CreateEffect e ti tk s v x) = Some (e, ''Target'', [(''id'', VStr ti), (''kind'', VStr tk)])"
| "merge_key _ = None"

fun new_nodes :: "stmt \<Rightarrow> graph \<Rightarrow> node list" where
  "new_nodes (MergePlace e n) g = upsert_new g ''Place'' [(''name'', VStr n)] []"
| "new_nodes (MergePerson e n) g = upsert_new g ''Person'' [(''name'', VStr n)] []"
| "new_nodes (MergeAgent e i) g = upsert_new g ''Agent'' [(''id'', VStr i)] []"
| "new_nodes (MergeCatalyst e c) g = upsert_new g ''Catalyst'' [(''description'', VStr c)] []"
| "new_nodes (MergeInvolvedEntity e i n k m) g =
     upsert_new g ''Entity'' [(''id'', VStr i)] [(''name'', VStr n), (''kind'', VStr k), (''meta'', m)]"
| "new_nodes (MergeProducedEntity e i n k m) g =
     upsert_new g ''Entity'' [(''id'', VStr i)] [(''name'', VStr n), (''kind'', VStr k), (''meta'', m)]"
| "new_nodes (CreateEffect e ti tk s v x) g =
     upsert_new g ''Target'' [(''id'', VStr ti), (''kind'', VStr tk)] []
     @ replicate (max 1 (count_nodes g ''Target'' [(''id'', VStr ti), (''kind'', VStr tk)]))
         \<lparr>labels = [''Effect''],
          nprops = mkprops [(''summary'', VStr s), (''valence'', VStr v), (''intensity'', VNum x)]\<rparr>"
| "new_nodes _ g = []"

definition ident_key :: "string \<Rightarrow> props \<Rightarrow> bool" where
  "ident_key l kvs =
     ((\<exists>n. l = ''Person'' \<and> kvs = [(''name'', VStr n)])
      \<or> (\<exists>i. l = ''Agent'' \<and> kvs = [(''id'', VStr i)])
      \<or> (\<exists>i. l = ''Entity'' \<and> kvs = [(''id'', VStr i)])
      \<or> (\<exists>n. l = ''Place'' \<and> kvs = [(''name'', VStr n)])
      \<or> (\<exists>c. l = ''Catalyst'' \<and> kvs = [(''description'', VStr c)])
      \<or> (\<exists>i k. l = ''Target'' \<and> kvs = [(''id'', VStr i), (''kind'', VStr k)]))"

fun is_effect_stmt :: "stmt \<Rightarrow> bool" where
  "is_effect_stmt (CreateEffect e ti tk s v x) = True"
| "is_effect_stmt _ = False"

text \<open>The statements of \<open>hippocampus_write_event\<close> that follow the creation of the Event.\<close>

definition write_rest :: "env \<Rightarrow> episode_in \<Rightarrow> stmt list" where
  "write_rest env ev = tl (write_stmts env ev)"

section \<open>Recall (\<open>handleRecallMemory\<close>)\<close>

record recall_args =
  rc_query :: "string option"
  rc_emotional_range :: "(real \<times> real) option"
  rc_temporal_range :: "(int \<times> int) option"
  rc_significance_threshold :: "real option"
  rc_involves_entities :: "string list option"
  rc_event_types :: "string list option"
  rc_limit :: "int option"
  rc_include_consolidations :: bool

text \<open>
  The handler assembles the text of one Cypher query from fragments. A fragment is
  modelled by a constructor that carries the parameters bound for it:
  \<^item> \<open>VectorCall\<close>: \<open>CALL db.index.vector.queryNodes('event_embeddings', $limit * 2,
    $queryEmbedding) YIELD node AS e, score\<close>;
  \<^item> \<open>AllEvents\<close>: \<open>MATCH (e:Event) WITH e, 0.5 AS score\<close>;
  \<^item> \<open>InvolvesJoin\<close>: \<open>WITH e, score MATCH (e)-[:INVOLVES]->(entity) WHERE entity.id IN
    $involvesEntities\<close>;
  \<^item> \<open>WhereAnd\<close>: a line \<open>WHERE c1 AND c2 ...\<close>;
  \<^item> \<open>Score\<close>: \<open>WITH e, score, (score * 0.7 + e.significance * 0.3) AS final_score\<close>;
  \<^item> \<open>Consolidations\<close>: \<open>OPTIONAL MATCH (e)-[cons:CONSOLIDATED_TO]->(target) WITH e,
    final_score, collect({...}) as consolidations\<close>;
  \<^item> \<open>Return\<close>: \<open>RETURN ... ORDER BY final_score DESC LIMIT $limit\<close>.
\<close>

datatype rpred =
    EmotionalRange real real
  | TemporalRange int int
  | SignificanceFloor real
  | TypeIn "string list"

datatype rclause =
    VectorCall "real list"
  | AllEvents
  | InvolvesJoin "string list"
  | WhereAnd "rpred list"
  | Score
  | Consolidations
  | Return bool

record rrow =
  r_e :: nat
  r_score :: val
  r_final :: val
  r_cons :: "(val \<times> val \<times> val) list"

text \<open>
  \<open>a >= b\<close> as a filter: true for two numbers or two instants in that order; a null or
  a value of another kind makes the comparison null, which a \<open>WHERE\<close> drops.
\<close>

fun cy_ge :: "val \<Rightarrow> val \<Rightarrow> bool" where
  "cy_ge (VNum a) (VNum b) = (b \<le> a)"
| "cy_ge (VTime a) (VTime b) = (b \<le> a)"
| "cy_ge _ _ = False"

text \<open>\<open>x IN $list\<close> for a list of strings.\<close>

definition cy_in :: "val \<Rightarrow> string list \<Rightarrow> bool" where
  "cy_in v xs = (v \<in> set (map VStr xs))"

fun holds :: "graph \<Rightarrow> nat \<Rightarrow> rpred \<Rightarrow> bool" where
  "holds g e (EmotionalRange lo hi) =
     (cy_ge (nprop g e ''emotional_valence'') (VNum lo)
      \<and> cy_ge (VNum hi) (nprop g e ''emotional_valence''))"
| "holds g e (TemporalRange s t) =
     (cy_ge (nprop g e ''timestamp'') (VTime s) \<and> cy_ge (VTime t) (nprop g e ''timestamp''))"
| "holds g e (SignificanceFloor x) = cy_ge (nprop g e ''significance'') (VNum x)"
| "holds g e (TypeIn ts) = cy_in (nprop g e ''type'') ts"

text \<open>
  The order of \<open>ORDER BY ... DESC\<close>: nulls first, then numbers from large to small, then
  the other kinds; instants from late to early. Values of a kind that the handlers do not
  sort by (strings, lists, maps) are left in the order they come in.
\<close>

fun desc_key :: "val \<Rightarrow> nat \<times> real" where
  "desc_key VNull = (0, 0)"
| "desc_key (VNum x) = (1, - x)"
| "desc_key (VStr s) = (2, 0)"
| "desc_key (VTime t) = (3, - real_of_int t)"
| "desc_key (VList xs) = (4, 0)"
| "desc_key (VMap kvs) = (5, 0)"

definition sorts_before :: "val \<Rightarrow> val \<Rightarrow> bool" where
  "sorts_before a b =
     (fst (desc_key a) < fst (desc_key b)
      \<or> (fst (desc_key a) = fst (desc_key b) \<and> snd (desc_key a) \<le> snd (desc_key b)))"

text \<open>A stable insertion sort by a given order.\<close>

fun insert_by :: "('a \<Rightarrow> 'a \<Rightarrow> bool) \<Rightarrow> 'a \<Rightarrow> 'a list \<Rightarrow> 'a list" where
  "insert_by le x [] = [x]"
| "insert_by le x (y # ys) = (if le x y then x # y # ys else y # insert_by le x ys)"

definition sort_by :: "('a \<Rightarrow> 'a \<Rightarrow> bool) \<Rightarrow> 'a list \<Rightarrow> 'a list" where
  "sort_by le xs = foldr (insert_by le) xs []"

text \<open>Which fragment may be followed by a \<open>WHERE\<close> line: one that ends in a \<open>YIELD\<close> or a
  \<open>WITH\<close>. \<open>InvolvesJoin\<close> ends in a \<open>MATCH ... WHERE ...\<close> already, and a second
  \<open>WHERE\<close> after it is not Cypher; nor is one after the \<open>RETURN\<close>.\<close>

fun takes_where :: "rclause \<Rightarrow> bool" where
  "takes_where (VectorCall emb) = True"
| "takes_where AllEvents = True"
| "takes_where Score = True"
| "takes_where Consolidations = True"
| "takes_where _ = False"

fun where_ok :: "rclause list \<Rightarrow> bool" where
  "where_ok [] = True"
| "where_ok (WhereAnd ps # cs) = False"
| "where_ok [c] = True"
| "where_ok (c # WhereAnd ps # cs) = (takes_where c \<and> where_ok cs)"
| "where_ok (c # d # cs) = where_ok (d # cs)"

text \<open>The consolidation maps collected for an Event; an Event without any gives one map of
  nulls, as the \<open>OPTIONAL MATCH\<close> does.\<close>

definition cons_items :: "graph \<Rightarrow> nat \<Rightarrow> (val \<times> val \<times> val) list" where
  "cons_items g e =
     (let cs = map (\<lambda>x. (nprop g (rdst x) ''id'', getp (rprops x) ''consolidation_type'',
                          getp (rprops x) ''strength''))
                 (filter (\<lambda>x. rtype x = ''CONSOLIDATED_TO'' \<and> rsrc x = e) (rels g))
      in if cs = [] then [(VNull, VNull, VNull)] else cs)"

definition final_score :: "val \<Rightarrow> val \<Rightarrow> val" where
  "final_score score sig = cy_add (cy_mul score (VNum (7 / 10))) (cy_mul sig (VNum (3 / 10)))"

fun eval_rclause :: "env \<Rightarrow> graph \<Rightarrow> int \<Rightarrow> rclause \<Rightarrow> rrow list \<Rightarrow> error + rrow list" where
  "eval_rclause env g lmt (VectorCall emb) rows =
     (case vector_index env g (lmt * 2) emb of
        None \<Rightarrow> Inl StoreError
      | Some hits \<Rightarrow>
          Inr (map (\<lambda>h. \<lparr>r_e = fst h, r_score = VNum (snd h), r_final = VNull, r_cons = []\<rparr>) hits))"
| "eval_rclause env g lmt AllEvents rows =
     Inr (map (\<lambda>n. \<lparr>r_e = n, r_score = VNum (5 / 10), r_final = VNull, r_cons = []\<rparr>)
            (match_nodes g ''Event'' []))"
| "eval_rclause env g lmt (InvolvesJoin ids) rows =
     Inr (concat (map (\<lambda>r. map (\<lambda>x. r)
                    (filter (\<lambda>x. rtype x = ''INVOLVES'' \<and> rsrc x = r_e r
                                 \<and> cy_in (nprop g (rdst x) ''id'') ids) (rels g))) rows))"
| "eval_rclause env g lmt (WhereAnd ps) rows =
     Inr (filter (\<lambda>r. list_all (holds g (r_e r)) ps) rows)"
| "eval_rclause env g lmt Score rows =
     Inr (map (\<lambda>r. r\<lparr>r_final := final_score (r_score r) (nprop g (r_e r) ''significance'')\<rparr>) rows)"
| "eval_rclause env g lmt Consolidations rows =
     Inr (map (\<lambda>k. \<lparr>r_e = fst k, r_score = VNull, r_final = snd k,
                     r_cons = concat (map (\<lambda>r. cons_items g (r_e r))
                                (filter (\<lambda>r. (r_e r, r_final r) = k) rows))\<rparr>)
            (nub (map (\<lambda>r. (r_e r, r_final r)) rows)))"
| "eval_rclause env g lmt (Return inc) rows =
     (if lmt < 0 then Inl StoreError
      else Inr (take (nat lmt) (sort_by (\<lambda>a b. sorts_before (r_final a) (r_final b)) rows)))"

fun eval_rclauses :: "env \<Rightarrow> graph \<Rightarrow> int \<Rightarrow> rclause list \<Rightarrow> rrow list \<Rightarrow> error + rrow list" where
  "eval_rclauses env g lmt [] rows = Inr rows"
| "eval_rclauses env g lmt (c # cs) rows =
     (case eval_rclause env g lmt c rows of
        Inl e \<Rightarrow> Inl e
      | Inr rows' \<Rightarrow> eval_rclauses env g lmt cs rows')"

text \<open>\<open>session.run(cypherQuery, params)\<close>: the store refuses a text that is not Cypher.\<close>

definition run_recall :: "env \<Rightarrow> graph \<Rightarrow> int \<Rightarrow> rclause list \<Rightarrow> error + rrow list" where
  "run_recall env g lmt q =
     (if store_fails env 0 then Inl StoreError
      else if \<not> where_ok q then Inl SyntaxError
      else eval_rclauses env g lmt q [])"

record memory =
  m_id :: val
  m_timestamp :: val
  m_type :: val
  m_emotional_valence :: val
  m_significance :: val
  m_context_summary :: val
  m_full_content :: val
  m_glyph :: val
  m_relevance_score :: val
  m_consolidations :: "(val \<times> val \<times> val) list option"

record recall_result =
  memories :: "memory list"
  rr_count :: nat

definition to_memory :: "graph \<Rightarrow> bool \<Rightarrow> rrow \<Rightarrow> memory" where
  "to_memory g inc r =
     \<lparr> m_id = nprop g (r_e r) ''id'',
       m_timestamp = nprop g (r_e r) ''timestamp'',
       m_type = nprop g (r_e r) ''type'',
       m_emotional_valence = nprop g (r_e r) ''emotional_valence'',
       m_significance = nprop g (r_e r) ''significance'',
       m_context_summary = nprop g (r_e r) ''context_summary'',
       m_full_content = nprop g (r_e r) ''full_content'',
       m_glyph = nprop g (r_e r) ''glyph_encoding'',
       m_relevance_score = r_final r,
       m_consolidations =
         (if inc then Some (filter (\<lambda>c. truthy (fst c)) (r_cons r)) else None) \<rparr>"

text \<open>\<open>limit = 10\<close> in the destructuring: the default when the argument is absent.\<close>

definition recall_limit :: "recall_args \<Rightarrow> int" where
  "recall_limit a = (case rc_limit a of None \<Rightarrow> 10 | Some l \<Rightarrow> l)"

text \<open>\<open>if (query)\<close>: a query is used when it is present and not the empty string.\<close>

definition has_query :: "recall_args \<Rightarrow> bool" where
  "has_query a = (case rc_query a of None \<Rightarrow> False | Some q \<Rightarrow> q \<noteq> [])"

text \<open>The conditions pushed on \<open>whereClauses\<close>, in the order of the source.\<close>

definition recall_where :: "recall_args \<Rightarrow> rpred list" where
  "recall_where a =
     (case rc_emotional_range a of None \<Rightarrow> [] | Some (lo, hi) \<Rightarrow> [EmotionalRange lo hi])
     @ (case rc_temporal_range a of None \<Rightarrow> [] | Some (s, t) \<Rightarrow> [TemporalRange s t])
     @ (case rc_significance_threshold a of None \<Rightarrow> [] | Some x \<Rightarrow> [SignificanceFloor x])
     @ (case rc_event_types a of None \<Rightarrow> [] | Some ts \<Rightarrow> (if ts = [] then [] else [TypeIn ts]))"

text \<open>The query text after its first fragment.\<close>

definition recall_tail :: "recall_args \<Rightarrow> rclause list" where
  "recall_tail a =
     (case rc_involves_entities a of
        None \<Rightarrow> []
      | Some ids \<Rightarrow> (if ids = [] then [] else [InvolvesJoin ids]))
     @ (if recall_where a = [] then [] else [WhereAnd (recall_where a)])
     @ [Score]
     @ (if rc_include_consolidations a then [Consolidations] else [])
     @ [Return (rc_include_consolidations a)]"

definition handleRecallMemory :: "env \<Rightarrow> graph \<Rightarrow> recall_args \<Rightarrow> error + recall_result" where
  "handleRecallMemory env g a =
     (case (if has_query a then
              (case generateEmbedding env (case rc_query a of None \<Rightarrow> [] | Some q \<Rightarrow> q) of
                 None \<Rightarrow> Inl EmbeddingError
               | Some emb \<Rightarrow> Inr (VectorCall emb))
            else Inr AllEvents) of
        Inl e \<Rightarrow> Inl e
      | Inr first \<Rightarrow>
          (case run_recall env g (recall_limit a) (first # recall_tail a) of
             Inl e \<Rightarrow> Inl e
           | Inr rows \<Rightarrow>
               Inr \<lparr> memories = map (to_memory g (rc_include_consolidations a)) rows,
                     rr_count = length rows \<rparr>))"



section \<open>Pattern completion (\<open>handleSearchEvents\<close>)\<close>

record search_args =
  sa_semantic_query :: "string option"
  sa_time_range :: "(int \<times> int) option"
  sa_participants :: "string list option"
  sa_entities :: "string list option"
  sa_place :: "string option"
  sa_effects_on :: "string option"
  sa_min_effect_intensity :: "real option"
  sa_limit :: "int option"

text \<open>
  The fragments of the query text of \<open>handleSearchEvents\<close>:
  \<^item> \<open>MatchEvents\<close>: \<open>MATCH (e:Event)\<close>;
  \<^item> \<open>ParticipantJoin\<close>: \<open>WITH e MATCH (e)<-[:PARTICIPATED_IN]-(participant) WHERE
    participant.name IN $participants OR participant.id IN $participants\<close>;
  \<^item> \<open>EntityJoin\<close>: \<open>WITH e MATCH (e)<-[:INVOLVED_IN]-(entity:Entity) WHERE entity.id IN
    $entities\<close>;
  \<^item> \<open>IntensityJoin\<close>: \<open>WITH e MATCH (e)-[:HAD_EFFECT_ON]->(f:Effect) WHERE f.intensity >=
    $minIntensity\<close>;
  \<^item> \<open>SWhere\<close>: a line \<open>WHERE c1 AND c2 ...\<close>;
  \<^item> \<open>Completion\<close>: \<open>WITH DISTINCT e OPTIONAL MATCH ... RETURN ... ORDER BY e.happened_at DESC
    LIMIT $limit\<close>.
\<close>

datatype spred =
    TimeRange int int
  | PlaceIs string
  | EffectsOn string

datatype sclause =
    MatchEvents
  | ParticipantJoin "string list"
  | EntityJoin "string list"
  | IntensityJoin real
  | SWhere "spred list"
  | Completion

text \<open>The relationships of a type that leave, and that enter, a node.\<close>

definition out_rels :: "graph \<Rightarrow> string \<Rightarrow> nat \<Rightarrow> relationship list" where
  "out_rels g t e = filter (\<lambda>x. rtype x = t \<and> rsrc x = e) (rels g)"

definition in_rels :: "graph \<Rightarrow> string \<Rightarrow> nat \<Rightarrow> relationship list" where
  "in_rels g t e = filter (\<lambda>x. rtype x = t \<and> rdst x = e) (rels g)"

text \<open>The values the \<open>OPTIONAL MATCH\<close> clauses of the completion bind for an Event.\<close>

definition people_of :: "graph \<Rightarrow> nat \<Rightarrow> val list" where
  "people_of g e =
     map (\<lambda>x. nprop g (rsrc x) ''name'')
       (filter (\<lambda>x. has_label g ''Person'' (rsrc x)) (in_rels g ''PARTICIPATED_IN'' e))"

definition agents_of :: "graph \<Rightarrow> nat \<Rightarrow> val list" where
  "agents_of g e =
     map (\<lambda>x. nprop g (rsrc x) ''id'')
       (filter (\<lambda>x. has_label g ''Agent'' (rsrc x)) (in_rels g ''PARTICIPATED_IN'' e))"

definition entities_of :: "graph \<Rightarrow> nat \<Rightarrow> val list" where
  "entities_of g e =
     map (\<lambda>x. nprop g (rsrc x) ''name'')
       (filter (\<lambda>x. has_label g ''Entity'' (rsrc x)) (in_rels g ''INVOLVED_IN'' e))"

definition places_of :: "graph \<Rightarrow> nat \<Rightarrow> val list" where
  "places_of g e =
     map (\<lambda>x. nprop g (rdst x) ''name'')
       (filter (\<lambda>x. has_label g ''Place'' (rdst x)) (out_rels g ''HELD_AT'' e))"

definition catalysts_of :: "graph \<Rightarrow> nat \<Rightarrow> val list" where
  "catalysts_of g e =
     map (\<lambda>x. nprop g (rdst x) ''description'')
       (filter (\<lambda>x. has_label g ''Catalyst'' (rdst x)) (out_rels g ''CATALYZED_BY'' e))"

text \<open>\<open>(e)-[:HAD_EFFECT_ON]->(effect:Effect)-[:WITH_RESPECT_TO]->(target:Target)\<close>: the map
  \<open>{effect, valence, intensity, target}\<close> of each path.\<close>

definition effects_of :: "graph \<Rightarrow> nat \<Rightarrow> (val \<times> val \<times> val \<times> val) list" where
  "effects_of g e =
     concat (map (\<lambda>x. map (\<lambda>y. (nprop g (rdst x) ''summary'', nprop g (rdst x) ''valence'',
                                  nprop g (rdst x) ''intensity'', nprop g (rdst y) ''id''))
                    (filter (\<lambda>y. has_label g ''Target'' (rdst y))
                       (out_rels g ''WITH_RESPECT_TO'' (rdst x))))
            (filter (\<lambda>x. has_label g ''Effect'' (rdst x)) (out_rels g ''HAD_EFFECT_ON'' e)))"

text \<open>An \<open>OPTIONAL MATCH\<close> that binds nothing yields one row of nulls.\<close>

definition opt :: "'a \<Rightarrow> 'a list \<Rightarrow> 'a list" where
  "opt null xs = (if xs = [] then [null] else xs)"

fun sholds :: "graph \<Rightarrow> nat \<Rightarrow> spred \<Rightarrow> bool" where
  "sholds g e (TimeRange s t) =
     (cy_ge (nprop g e ''happened_at'') (VTime s) \<and> cy_ge (VTime t) (nprop g e ''happened_at''))"
| "sholds g e (PlaceIs p) = (VStr p \<in> set (places_of g e))"
| "sholds g e (EffectsOn t) = (VStr t \<in> set (map (\<lambda>f. snd (snd (snd f))) (effects_of g e)))"

text \<open>The rows of the completion for one Event: every combination of the optional matches.\<close>

record srow =
  s_e :: nat
  s_person :: val
  s_agent :: val
  s_entity :: val
  s_place :: val
  s_catalyst :: val
  s_effect :: "val \<times> val \<times> val \<times> val"

definition rows_of :: "graph \<Rightarrow> nat \<Rightarrow> srow list" where
  "rows_of g e =
     [\<lparr>s_e = e, s_person = p, s_agent = a, s_entity = en, s_place = pl, s_catalyst = c,
       s_effect = f\<rparr>.
        p \<leftarrow> opt VNull (people_of g e), a \<leftarrow> opt VNull (agents_of g e),
        en \<leftarrow> opt VNull (entities_of g e), pl \<leftarrow> opt VNull (places_of g e),
        c \<leftarrow> opt VNull (catalysts_of g e),
        f \<leftarrow> opt (VNull, VNull, VNull, VNull) (effects_of g e)]"

text \<open>The expressions of the \<open>RETURN\<close> that are not aggregates; they group the rows.\<close>

definition group_key :: "graph \<Rightarrow> srow \<Rightarrow> val \<times> val \<times> val \<times> val \<times> val" where
  "group_key g r =
     (nprop g (s_e r) ''id'', nprop g (s_e r) ''title'', nprop g (s_e r) ''description'',
      nprop g (s_e r) ''happened_at'', s_place r)"

record event_view =
  sv_id :: val
  sv_title :: val
  sv_description :: val
  sv_when :: val
  sv_people :: "val list"
  sv_agents :: "val list"
  sv_what :: "val list"
  sv_where :: val
  sv_why :: "val list"
  sv_effects :: "(val \<times> val \<times> val \<times> val) list"

text \<open>\<open>collect(DISTINCT x)\<close> leaves nulls out; the handler then keeps the truthy values.\<close>

definition collected :: "val list \<Rightarrow> val list" where
  "collected vs = filter truthy (nub (filter (\<lambda>v. v \<noteq> VNull) vs))"

definition view_of :: "(val \<times> val \<times> val \<times> val \<times> val) \<Rightarrow> srow list \<Rightarrow> event_view" where
  "view_of k rs =
     \<lparr> sv_id = fst k, sv_title = fst (snd k), sv_description = fst (snd (snd k)),
       sv_when = fst (snd (snd (snd k))),
       sv_people = collected (map s_person rs),
       sv_agents = collected (map s_agent rs),
       sv_what = collected (map s_entity rs),
       sv_where = snd (snd (snd (snd k))),
       sv_why = collected (map s_catalyst rs),
       sv_effects = filter (\<lambda>f. truthy (fst f)) (nub (map s_effect rs)) \<rparr>"

definition completion :: "graph \<Rightarrow> int \<Rightarrow> nat list \<Rightarrow> error + event_view list" where
  "completion g lmt es =
     (if lmt < 0 then Inl StoreError
      else
        (let rows = concat (map (rows_of g) (nub es));
             keys = nub (map (group_key g) rows);
             sorted = sort_by (\<lambda>a b. sorts_before (fst (snd (snd (snd a)))) (fst (snd (snd (snd b)))))
                        keys
         in Inr (map (\<lambda>k. view_of k (filter (\<lambda>r. group_key g r = k) rows))
                   (take (nat lmt) sorted))))"

fun stakes_where :: "sclause \<Rightarrow> bool" where
  "stakes_where MatchEvents = True"
| "stakes_where _ = False"

fun swhere_ok :: "sclause list \<Rightarrow> bool" where
  "swhere_ok [] = True"
| "swhere_ok (SWhere ps # cs) = False"
| "swhere_ok [c] = True"
| "swhere_ok (c # SWhere ps # cs) = (stakes_where c \<and> swhere_ok cs)"
| "swhere_ok (c # d # cs) = swhere_ok (d # cs)"

text \<open>The fragments before the completion narrow the list of Events; a join yields an Event
  once for each relationship that matches.\<close>

fun eval_sclause :: "graph \<Rightarrow> sclause \<Rightarrow> nat list \<Rightarrow> nat list" where
  "eval_sclause g MatchEvents es = match_nodes g ''Event'' []"
| "eval_sclause g (ParticipantJoin ids) es =
     concat (map (\<lambda>e. map (\<lambda>x. e)
               (filter (\<lambda>x. cy_in (nprop g (rsrc x) ''name'') ids \<or> cy_in (nprop g (rsrc x) ''id'') ids)
                  (in_rels g ''PARTICIPATED_IN'' e))) es)"
| "eval_sclause g (EntityJoin ids) es =
     concat (map (\<lambda>e. map (\<lambda>x. e)
               (filter (\<lambda>x. has_label g ''Entity'' (rsrc x) \<and> cy_in (nprop g (rsrc x) ''id'') ids)
                  (in_rels g ''INVOLVED_IN'' e))) es)"
| "eval_sclause g (IntensityJoin m) es =
     concat (map (\<lambda>e. map (\<lambda>x. e)
               (filter (\<lambda>x. has_label g ''Effect'' (rdst x)
                            \<and> cy_ge (nprop g (rdst x) ''intensity'') (VNum m))
                  (out_rels g ''HAD_EFFECT_ON'' e))) es)"
| "eval_sclause g (SWhere ps) es = filter (\<lambda>e. list_all (sholds g e) ps) es"
| "eval_sclause g Completion es = es"

text \<open>\<open>parseInt(limit) || 10\<close>, with the default 10 of the destructuring.\<close>

definition search_limit :: "search_args \<Rightarrow> int" where
  "search_limit a = (case sa_limit a of None \<Rightarrow> 10 | Some l \<Rightarrow> (if l = 0 then 10 else l))"

definition search_where :: "search_args \<Rightarrow> spred list" where
  "search_where a =
     (case sa_time_range a of None \<Rightarrow> [] | Some (s, t) \<Rightarrow> [TimeRange s t])
     @ (case sa_place a of None \<Rightarrow> [] | Some p \<Rightarrow> (if p = [] then [] else [PlaceIs p]))
     @ (case sa_effects_on a of None \<Rightarrow> [] | Some t \<Rightarrow> (if t = [] then [] else [EffectsOn t]))"

definition search_query :: "search_args \<Rightarrow> sclause list" where
  "search_query a =
     MatchEvents
     # (case sa_participants a of
          None \<Rightarrow> []
        | Some ids \<Rightarrow> (if ids = [] then [] else [ParticipantJoin ids]))
     @ (case sa_entities a of
          None \<Rightarrow> []
        | Some ids \<Rightarrow> (if ids = [] then [] else [EntityJoin ids]))
     @ (case sa_min_effect_intensity a of None \<Rightarrow> [] | Some m \<Rightarrow> [IntensityJoin m])
     @ (if search_where a = [] then [] else [SWhere (search_where a)])
     @ [Completion]"

record search_result =
  events :: "event_view list"
  sr_count :: nat

definition handleSearchEvents :: "env \<Rightarrow> graph \<Rightarrow> search_args \<Rightarrow> error + search_result" where
  "handleSearchEvents env g a =
     (if store_fails env 0 then Inl StoreError
      else if \<not> swhere_ok (search_query a) then Inl SyntaxError
      else
        (case completion g (search_limit a) (fold (eval_sclause g) (search_query a) []) of
           Inl e \<Rightarrow> Inl e
         | Inr vs \<Rightarrow> Inr \<lparr>events = vs, sr_count = length vs\<rparr>))"

section \<open>A search without filters\<close>







section \<open>Example stores and calls\<close>

definition two_people :: graph where
  "two_people =
     \<lparr> nodes = [\<lparr>labels = [''Person''], nprops = [(''id'', VStr ''A''), (''name'', VStr ''Ann'')]\<rparr>,
                \<lparr>labels = [''Person''], nprops = [(''id'', VStr ''B''), (''name'', VStr ''Bob'')]\<rparr>],
       rels = [] \<rparr>"

definition bond_call :: "real \<Rightarrow> bond_args" where
  "bond_call s =
     \<lparr> from_entity_id = ''A'', to_entity_id = ''B'', new_strength = s,
       emotional_resonance = None, milestone = None, interaction_context = None \<rparr>"

definition env_ok :: env where
  "env_ok =
     \<lparr> clock = 100, fresh_id = ''e1'',
       generateEmbedding = (\<lambda>_. Some [1 / 10, 2 / 10]),
       vector_index = (\<lambda>_ _ _. Some []),
       store_fails = (\<lambda>_. False) \<rparr>"

definition encode_call :: "real \<Rightarrow> encode_args" where
  "encode_call v =
     \<lparr> event = \<lparr> ev_type = ''conversation'', ev_timestamp = None,
                 ev_emotional_valence = v, ev_significance = 8 / 10,
                 ev_context_summary = ''kickoff'', ev_full_content = None, ev_glyph = None \<rparr>,
       involves = [\<lparr>entity_id = ''A'', role = ''subject'', salience = 1\<rparr>,
                   \<lparr>entity_id = ''ghost'', role = ''witness'', salience = 1 / 2\<rparr>],
       precedes = [''nowhere''],
       consolidates_to = [\<lparr>target_id = ''phantom'', strength = 1 / 2,
                            consolidation_type = ''semantic''\<rparr>] \<rparr>"

definition kickoff :: episode_in where
  "kickoff =
     \<lparr> ep_id = None, ep_title = ''kickoff'', ep_description = ''project start'',
       ep_happened_at = Some 50,
       ep_who = [\<lparr>pt_id = ''Alice'', pt_type = ''person''\<rparr>],
       ep_why = [], ep_what_entities = [], ep_what_produced = [],
       ep_where = Some ''HQ'', ep_effects = [] \<rparr>"

definition empty_graph :: graph where
  "empty_graph = \<lparr>nodes = [], rels = []\<rparr>"


definition env_no_embedding :: env where
  "env_no_embedding = env_ok\<lparr>generateEmbedding := (\<lambda>_. None)\<rparr>"

definition loud_episode :: episode_in where
  "loud_episode =
     kickoff\<lparr>ep_effects := [\<lparr>ef_summary = ''morale soared'', ef_valence = ''positive'',
                               ef_intensity = 3 / 2, ef_target_id = ''team'',
                               ef_target_kind = ''GROUP''\<rparr>]\<rparr>"

definition ghost_call :: encode_args where
  "ghost_call =
     (encode_call (1 / 2))\<lparr>involves := [\<lparr>entity_id = ''ghost'', role = ''witness'', salience = 1 / 2\<rparr>]\<rparr>"

definition retro :: episode_in where
  "retro =
     \<lparr> ep_id = None, ep_title = ''retro'', ep_description = ''looking back'',
       ep_happened_at = Some 60,
       ep_who = [\<lparr>pt_id = ''Alice'', pt_type = ''person''\<rparr>, \<lparr>pt_id = ''bot'', pt_type = ''agent''\<rparr>],
       ep_why = [''deadline''],
       ep_what_entities = [\<lparr>en_id = ''m1'', en_name = ''parser'', en_kind = ''module'', en_meta = None\<rparr>],
       ep_what_produced = [],
       ep_where = Some ''HQ'',
       ep_effects = [\<lparr>ef_summary = ''relief'', ef_valence = ''positive'', ef_intensity = 1 / 2,
                       ef_target_id = ''team'', ef_target_kind = ''GROUP''\<rparr>] \<rparr>"

definition env_second :: env where
  "env_second = env_ok\<lparr>fresh_id := ''e2''\<rparr>"

definition recall_all :: recall_args where
  "recall_all =
     \<lparr> rc_query = None, rc_emotional_range = None, rc_temporal_range = None,
       rc_significance_threshold = None, rc_involves_entities = None, rc_event_types = None,
       rc_limit = None, rc_include_consolidations = False \<rparr>"

definition quiet_call :: encode_args where
  "quiet_call =
     \<lparr> event = \<lparr> ev_type = ''realization'', ev_timestamp = Some 120,
                 ev_emotional_valence = 0, ev_significance = 2 / 10,
                 ev_context_summary = ''minor note'', ev_full_content = None, ev_glyph = None \<rparr>,
       involves = [\<lparr>entity_id = ''A'', role = ''subject'', salience = 1\<rparr>],
       precedes = [], consolidates_to = [] \<rparr>"

definition two_memories :: graph where
  "two_memories =
     fst (snd (handleEncodeMemory env_ok
       (fst (snd (handleEncodeMemory env_second two_people quiet_call))) (encode_call (1 / 2))))"



definition search_all :: search_args where
  "search_all =
     \<lparr> sa_semantic_query = None, sa_time_range = None, sa_participants = None,
       sa_entities = None, sa_place = None, sa_effects_on = None,
       sa_min_effect_intensity = None, sa_limit = None \<rparr>"

definition two_episodes :: graph where
  "two_episodes =
     fst (snd (handleWriteEvent env_second
       (fst (snd (handleWriteEvent env_ok empty_graph kickoff))) retro))"


section \<open>Properties of bond evolution\<close>
















section \<open>Properties of the write transactions\<close>

lemma run_stmts_ok:
  "run_stmts fl i ss g = (tr, Inr g') \<Longrightarrow>
     run_stmts (\<lambda>_. False) j ss g = (map Run ss, Inr g') \<and> tr = map Run ss
     \<and> (\<forall>k < length ss. \<not> fl (i + k))"
proof (induction ss arbitrary: i j g tr)
  case Nil
  then show ?case by simp
next
  case (Cons s ss)
  from Cons.prems have nf: "\<not> fl i" by (auto split: if_splits)
  from Cons.prems nf obtain g1 where e: "exec_stmt s g = Inr g1"
    by (auto split: sum.splits prod.splits)
  from Cons.prems nf e obtain tr1
    where r: "run_stmts fl (Suc i) ss g1 = (tr1, Inr g')" and tr: "tr = Run s # tr1"
    by (auto split: prod.splits)
  from Cons.IH[OF r, of "Suc j"]
  have ih: "run_stmts (\<lambda>_. False) (Suc j) ss g1 = (map Run ss, Inr g')"
     "tr1 = map Run ss" "\<forall>k < length ss. \<not> fl (Suc i + k)" by auto
  have "\<forall>k < length (s # ss). \<not> fl (i + k)"
  proof (intro allI impI)
    fix k assume "k < length (s # ss)"
    then show "\<not> fl (i + k)" using nf ih(3) by (cases k) auto
  qed
  then show ?case using e ih tr by simp
qed

lemma run_tx_cases:
  assumes a: "run_tx fl ss g = (tr, g', r)"
  shows "(g' = g \<and> isl r)
   \<or> (r = Inr () \<and> run_stmts (\<lambda>_. False) 0 ss g = (map Run ss, Inr g')
        \<and> tr = map Run ss @ [CommitTx] \<and> (\<forall>k \<le> length ss. \<not> fl k))"
proof -
  obtain t0 r0 where rs: "run_stmts fl 0 ss g = (t0, r0)" by (cases "run_stmts fl 0 ss g")
  show ?thesis
  proof (cases r0)
    case (Inl e)
    with a rs show ?thesis by (auto simp: run_tx_def)
  next
    case (Inr gf)
    note ok = run_stmts_ok[OF rs[unfolded Inr], of 0]
    show ?thesis
    proof (cases "fl (length ss)")
      case True
      with a rs Inr show ?thesis by (auto simp: run_tx_def)
    next
      case False
      have "\<forall>k \<le> length ss. \<not> fl k"
      proof (intro allI impI)
        fix k assume "k \<le> length ss"
        then show "\<not> fl k" using ok False by (cases "k = length ss") auto
      qed
      with a rs Inr False ok show ?thesis by (auto simp: run_tx_def)
    qed
  qed
qed



lemma write_cases:
  assumes "handleWriteEvent env g ev = (tr, g', r)"
  shows "(g' = g \<and> isl r)
   \<or> (\<not> isl r
        \<and> run_stmts (\<lambda>_. False) 0 (write_stmts env ev) g = (map Run (write_stmts env ev), Inr g')
        \<and> (\<forall>k \<le> length (write_stmts env ev). \<not> store_fails env k)
        \<and> tr = BeginTx # map Run (write_stmts env ev) @ [CommitTx, CloseSession])"
proof -
  obtain t1 g1 r1 where tx: "run_tx (store_fails env) (write_stmts env ev) g = (t1, g1, r1)"
    by (cases "run_tx (store_fails env) (write_stmts env ev) g") auto
  from run_tx_cases[OF tx] assms tx show ?thesis
    by (auto simp: handleWriteEvent_def Let_def split: if_splits sum.splits list.splits)
qed



subsection \<open>Runs without store failures\<close>

lemma run_stmts_nofail_index:
  "snd (run_stmts (\<lambda>_. False) i ss g) = snd (run_stmts (\<lambda>_. False) j ss g)"
proof (induction ss arbitrary: i j g)
  case Nil
  show ?case by simp
next
  case (Cons s ss)
  show ?case
    using Cons.IH[of "Suc i" _ "Suc j"]
    by (simp add: case_prod_unfold Let_def split: sum.splits)
qed

lemma exec_all_Nil [simp]: "exec_all [] g = Inr g"
  by (simp add: exec_all_def)

lemma exec_all_Cons:
  "exec_all (s # ss) g = (case exec_stmt s g of Inl e \<Rightarrow> Inl e | Inr g' \<Rightarrow> exec_all ss g')"
  using run_stmts_nofail_index[of "Suc 0" ss _ 0]
  by (simp add: exec_all_def case_prod_unfold Let_def split: sum.splits)

lemma exec_all_append:
  "exec_all (ss @ tt) g = (case exec_all ss g of Inl e \<Rightarrow> Inl e | Inr g' \<Rightarrow> exec_all tt g')"
  by (induction ss arbitrary: g) (auto simp: exec_all_Cons split: sum.splits)

lemma run_tx_nofail:
  "run_tx (\<lambda>_. False) ss g =
     (case exec_all ss g of
        Inl e \<Rightarrow> (fst (run_stmts (\<lambda>_. False) 0 ss g) @ [RollbackTx], g, Inl e)
      | Inr g' \<Rightarrow> (fst (run_stmts (\<lambda>_. False) 0 ss g) @ [CommitTx], g', Inr ()))"
  by (auto simp: run_tx_def exec_all_def split: prod.splits sum.splits)

text \<open>Statements that only add relationships leave the nodes, and so every match, alone.\<close>

lemma nodes_add_rel [simp]: "nodes (add_rel r g) = nodes g"
  by (simp add: add_rel_def)

lemma nodes_fold_add_rel [simp]: "nodes (fold (\<lambda>x. add_rel (f x)) xs g) = nodes g"
  by (induction xs arbitrary: g) auto

lemma nodes_fold_add_rel2 [simp]: "nodes (fold (\<lambda>(a, b). add_rel (f a b)) xs g) = nodes g"
  by (induction xs arbitrary: g) auto

lemma match_id_cong: "nodes h = nodes g \<Longrightarrow> match_id h i = match_id g i"
  by (simp add: match_id_def all_nodes_def nprop_def)

lemma node_matches_cong: "nodes h = nodes g \<Longrightarrow> node_matches h l kvs = node_matches g l kvs"
  by (rule ext) (simp add: node_matches_def nprop_def has_label_def)

lemma match_nodes_cong: "nodes h = nodes g \<Longrightarrow> match_nodes h l kvs = match_nodes g l kvs"
  using node_matches_cong[of h g l kvs] by (simp add: match_nodes_def all_nodes_def)

lemma pairs_Nil2 [simp]: "pairs xs [] = []"
  by (induction xs) (auto simp: pairs_def)

lemma pairs_Nil1 [simp]: "pairs [] ys = []"
  by (simp add: pairs_def)

lemma events_with_id_cong: "nodes h = nodes g \<Longrightarrow> events_with_id h i = events_with_id g i"
  using match_nodes_cong[of h g] by (simp add: events_with_id_def)

lemma exec_involves:
  "\<exists>h'. exec_stmt (CreateInvolves e x r s) h = Inr h' \<and> nodes h' = nodes h
        \<and> (match_id h x = [] \<longrightarrow> h' = h)"
  by simp

lemma exec_preceded:
  "\<exists>h'. exec_stmt (CreatePreceded p e) h = Inr h' \<and> nodes h' = nodes h
        \<and> (events_with_id h p = [] \<longrightarrow> h' = h)"
  by simp

lemma exec_consolidated:
  "\<exists>h'. exec_stmt (CreateConsolidated e x s t) h = Inr h' \<and> nodes h' = nodes h
        \<and> (match_id h x = [] \<longrightarrow> h' = h)"
  by simp

lemma exec_all_map_filter:
  assumes "\<And>x h. nodes h = nodes g \<Longrightarrow>
             \<exists>h'. exec_stmt (f x) h = Inr h' \<and> nodes h' = nodes g \<and> (\<not> Q x \<longrightarrow> h' = h)"
  shows "\<exists>g'. exec_all (map f xs) g = Inr g' \<and> exec_all (map f (filter Q xs)) g = Inr g'
            \<and> nodes g' = nodes g"
  using assms
proof (induction xs arbitrary: g)
  case Nil
  then show ?case by simp
next
  case (Cons x xs)
  from Cons.prems[of g x] obtain h' where h: "exec_stmt (f x) g = Inr h'" "nodes h' = nodes g" "\<not> Q x \<longrightarrow> h' = g"
    by auto
  have step: "\<And>x h. nodes h = nodes h' \<Longrightarrow>
             \<exists>h''. exec_stmt (f x) h = Inr h'' \<and> nodes h'' = nodes h' \<and> (\<not> Q x \<longrightarrow> h'' = h)"
    using Cons.prems h(2) by simp
  from Cons.IH[OF step] obtain g' where g': "exec_all (map f xs) h' = Inr g'"
    "exec_all (map f (filter Q xs)) h' = Inr g'" "nodes g' = nodes h'"
    by blast
  show ?case
  proof (cases "Q x")
    case True
    with h g' show ?thesis by (simp add: exec_all_Cons)
  next
    case False
    with h g' show ?thesis by (simp add: exec_all_Cons)
  qed
qed


lemma all_nodes_add_node: "all_nodes (add_node n g) = all_nodes g @ [length (nodes g)]"
  by (simp add: all_nodes_def add_node_def)

lemma nprop_add_node_old: "m < length (nodes g) \<Longrightarrow> nprop (add_node n g) m k = nprop g m k"
  by (simp add: nprop_def add_node_def nth_append)

lemma nprop_add_node_new: "nprop (add_node n g) (length (nodes g)) k = getp (nprops n) k"
  by (simp add: nprop_def add_node_def)

lemma has_label_add_node_old: "m < length (nodes g) \<Longrightarrow> has_label (add_node n g) l m = has_label g l m"
  by (simp add: has_label_def add_node_def nth_append)

lemma has_label_add_node_new: "has_label (add_node n g) l (length (nodes g)) = (l \<in> set (labels n))"
  by (simp add: has_label_def add_node_def)

lemma match_id_add_node:
  "match_id (add_node n g) i =
     match_id g i @ (if getp (nprops n) ''id'' = VStr i then [length (nodes g)] else [])"
proof -
  have "filter (\<lambda>m. nprop (add_node n g) m ''id'' = VStr i) (all_nodes g)
        = filter (\<lambda>m. nprop g m ''id'' = VStr i) (all_nodes g)"
    by (rule filter_cong) (auto simp: all_nodes_def nprop_add_node_old)
  then show ?thesis
    by (simp add: match_id_def all_nodes_add_node nprop_add_node_new)
qed

lemma node_matches_add_node_old:
  "m < length (nodes g) \<Longrightarrow> node_matches (add_node n g) l kvs m = node_matches g l kvs m"
  by (simp add: node_matches_def nprop_add_node_old has_label_add_node_old)

lemma match_nodes_add_node:
  "match_nodes (add_node n g) l kvs =
     match_nodes g l kvs
     @ (if node_matches (add_node n g) l kvs (length (nodes g)) then [length (nodes g)] else [])"
proof -
  have "filter (node_matches (add_node n g) l kvs) (all_nodes g)
        = filter (node_matches g l kvs) (all_nodes g)"
    by (rule filter_cong) (auto simp: all_nodes_def node_matches_add_node_old)
  then show ?thesis
    by (simp add: match_nodes_def all_nodes_add_node)
qed

lemma events_with_id_add_node:
  "events_with_id (add_node n g) i =
     events_with_id g i
     @ (if ''Event'' \<in> set (labels n) \<and> getp (nprops n) ''id'' = VStr i then [length (nodes g)] else [])"
  by (simp add: events_with_id_def match_nodes_add_node node_matches_def
        nprop_add_node_new has_label_add_node_new)

section \<open>Properties of \<open>handleEncodeMemory\<close>\<close>

lemma event_node_id: "getp (nprops (event_node env a emb)) ''id'' = VStr (fresh_id env)"
  "''Event'' \<in> set (labels (event_node env a emb))"
  by (simp_all add: event_node_def mkprops_def getp_def)

lemma exec_encode:
  fixes env :: env and a :: encode_args and emb :: "real list" and g :: graph
  assumes fresh: "events_with_id g (fresh_id env) = []"
  defines "g1 \<equiv> add_node (event_node env a emb) g"
  defines "QI \<equiv> (\<lambda>i. match_id g (entity_id i) \<noteq> [] \<or> entity_id i = fresh_id env)"
      and "QP \<equiv> (\<lambda>p. events_with_id g p \<noteq> [] \<or> p = fresh_id env)"
      and "QC \<equiv> (\<lambda>c. match_id g (target_id c) \<noteq> [] \<or> target_id c = fresh_id env)"
  shows "\<exists>g'. exec_all (encode_stmts env a emb) g = Inr g'
            \<and> exec_all (encode_stmts env
                 (a\<lparr>involves := filter QI (involves a), precedes := filter QP (precedes a),
                    consolidates_to := filter QC (consolidates_to a)\<rparr>) emb) g = Inr g'
            \<and> nodes g' = nodes g1
            \<and> (filter QI (involves a) = [] \<and> filter QP (precedes a) = []
                 \<and> filter QC (consolidates_to a) = [] \<longrightarrow> g' = g1)"
proof -
  let ?eid = "fresh_id env"
  let ?fI = "\<lambda>i. CreateInvolves ?eid (entity_id i) (role i) (salience i)"
  let ?fP = "\<lambda>p. CreatePreceded p ?eid"
  let ?fC = "\<lambda>c. CreateConsolidated ?eid (target_id c) (strength c) (consolidation_type c)"
  have mi: "match_id h x = [] \<longleftrightarrow> \<not> (match_id g x \<noteq> [] \<or> x = ?eid)" if "nodes h = nodes g1" for h x
    using match_id_cong[OF that] by (auto simp: g1_def match_id_add_node event_node_id)
  have me: "events_with_id h x = [] \<longleftrightarrow> \<not> (events_with_id g x \<noteq> [] \<or> x = ?eid)" if "nodes h = nodes g1" for h x
    using events_with_id_cong[OF that] by (auto simp: g1_def events_with_id_add_node event_node_id)
  have sI: "\<exists>h'. exec_stmt (?fI x) h = Inr h' \<and> nodes h' = nodes g1 \<and> (\<not> QI x \<longrightarrow> h' = h)"
    if "nodes h = nodes g1" for x h
    using exec_involves[of ?eid "entity_id x" "role x" "salience x" h] mi[OF that] that
    by (auto simp: QI_def)
  have sP: "\<exists>h'. exec_stmt (?fP x) h = Inr h' \<and> nodes h' = nodes g1 \<and> (\<not> QP x \<longrightarrow> h' = h)"
    if "nodes h = nodes g1" for x h
    using exec_preceded[of x ?eid h] me[OF that] that
    by (auto simp: QP_def)
  have sC: "\<exists>h'. exec_stmt (?fC x) h = Inr h' \<and> nodes h' = nodes g1 \<and> (\<not> QC x \<longrightarrow> h' = h)"
    if "nodes h = nodes g1" for x h
    using exec_consolidated[of ?eid "target_id x" "strength x" "consolidation_type x" h] mi[OF that] that
    by (auto simp: QC_def)
  from exec_all_map_filter[of g1 ?fI QI "involves a", OF sI]
  obtain g2 where g2: "exec_all (map ?fI (involves a)) g1 = Inr g2"
     "exec_all (map ?fI (filter QI (involves a))) g1 = Inr g2" "nodes g2 = nodes g1" by blast
  have sP': "\<exists>h'. exec_stmt (?fP x) h = Inr h' \<and> nodes h' = nodes g2 \<and> (\<not> QP x \<longrightarrow> h' = h)"
    if "nodes h = nodes g2" for x h using sP[of h x] that g2(3) by simp
  from exec_all_map_filter[of g2 ?fP QP "precedes a", OF sP']
  obtain g3 where g3: "exec_all (map ?fP (precedes a)) g2 = Inr g3"
     "exec_all (map ?fP (filter QP (precedes a))) g2 = Inr g3" "nodes g3 = nodes g2" by blast
  have sC': "\<exists>h'. exec_stmt (?fC x) h = Inr h' \<and> nodes h' = nodes g3 \<and> (\<not> QC x \<longrightarrow> h' = h)"
    if "nodes h = nodes g3" for x h using sC[of h x] that g2(3) g3(3) by simp
  from exec_all_map_filter[of g3 ?fC QC "consolidates_to a", OF sC']
  obtain g4 where g4: "exec_all (map ?fC (consolidates_to a)) g3 = Inr g4"
     "exec_all (map ?fC (filter QC (consolidates_to a))) g3 = Inr g4" "nodes g4 = nodes g3" by blast
  have create: "exec_stmt (CreateEvent ?eid (case ev_timestamp (event a) of None \<Rightarrow> clock env | Some t \<Rightarrow> t)
           (ev_type (event a)) (ev_emotional_valence (event a))
           (ev_significance (event a)) (ev_context_summary (event a)) (str_or_null (ev_full_content (event a)))
           (str_or_null (ev_glyph (event a))) emb) g = Inr g1"
    using fresh by (simp add: create_event_node_def g1_def event_node_def)
  have full: "exec_all (encode_stmts env a emb) g = Inr g4"
    using create g2(1) g3(1) g4(1)
    by (simp add: encode_stmts_def Let_def exec_all_Cons exec_all_append)
  have filt: "exec_all (encode_stmts env
                 (a\<lparr>involves := filter QI (involves a), precedes := filter QP (precedes a),
                    consolidates_to := filter QC (consolidates_to a)\<rparr>) emb) g = Inr g4"
    using create g2(2) g3(2) g4(2)
    by (simp add: encode_stmts_def Let_def exec_all_Cons exec_all_append)
  have none: "g4 = g1" if "filter QI (involves a) = []" "filter QP (precedes a) = []"
                 "filter QC (consolidates_to a) = []"
    using g2(2) g3(2) g4(2) that by simp
  show ?thesis using full filt none g4(3) g3(3) g2(3) by auto
qed


lemma encode_nofail:
  assumes valid: "- 1 \<le> ev_emotional_valence (event a)" "ev_emotional_valence (event a) \<le> 1"
      "0 \<le> ev_significance (event a)" "ev_significance (event a) \<le> 1"
    and emb: "generateEmbedding env (embeddingText (event a)) = Some emb"
    and nofail: "\<forall>k. \<not> store_fails env k"
    and ex: "exec_all (encode_stmts env a emb) g = Inr g'"
    and ev: "events_with_id g' (fresh_id env) \<noteq> []"
  shows "\<exists>tr res. handleEncodeMemory env g a = (tr, g', Inr res) \<and> CommitTx \<in> set tr
           \<and> er_relationships_created res
               = length (involves a) + length (precedes a) + length (consolidates_to a)"
proof -
  have fl: "store_fails env = (\<lambda>_. False)" using nofail by auto
  obtain e es where es: "events_with_id g' (fresh_id env) = e # es"
    using ev by (cases "events_with_id g' (fresh_id env)") auto
  show ?thesis
    using valid emb ex es
    by (simp add: handleEncodeMemory_def Let_def fl run_tx_nofail)
qed

text \<open>
  Claim C10. Take an \<open>encode_memory\<close> call with a valid event, a working embedding
  provider, no store failure and an unused event id. The call reports success, with
  \<open>relationships_created\<close> counting every requested reference, and the transaction is
  committed. The only node created is the Event: no placeholder is made. The store is the
  one obtained when the references that resolve to no node are left out of the arguments;
  when none of the references resolves, no relationship is created at all.
\<close>

theorem encode_unresolved_reference_skipped:
  assumes valid: "- 1 \<le> ev_emotional_valence (event a)" "ev_emotional_valence (event a) \<le> 1"
      "0 \<le> ev_significance (event a)" "ev_significance (event a) \<le> 1"
    and emb: "generateEmbedding env (embeddingText (event a)) = Some emb"
    and nofail: "\<forall>k. \<not> store_fails env k"
    and fresh: "events_with_id g (fresh_id env) = []"
  shows "case handleEncodeMemory env g a of (tr, g', r) \<Rightarrow>
      (\<exists>res. r = Inr res \<and> er_relationships_created res
                 = length (involves a) + length (precedes a) + length (consolidates_to a))
    \<and> CommitTx \<in> set tr
    \<and> nodes g' = nodes g @ [event_node env a emb]
    \<and> g' = fst (snd (handleEncodeMemory env g
          (a\<lparr>involves := filter (\<lambda>i. match_id g (entity_id i) \<noteq> [] \<or> entity_id i = fresh_id env)
                            (involves a),
             precedes := filter (\<lambda>p. events_with_id g p \<noteq> [] \<or> p = fresh_id env) (precedes a),
             consolidates_to := filter (\<lambda>c. match_id g (target_id c) \<noteq> [] \<or> target_id c = fresh_id env)
                            (consolidates_to a)\<rparr>)))
    \<and> ((\<forall>i \<in> set (involves a). match_id g (entity_id i) = [] \<and> entity_id i \<noteq> fresh_id env)
        \<and> (\<forall>p \<in> set (precedes a). events_with_id g p = [] \<and> p \<noteq> fresh_id env)
        \<and> (\<forall>c \<in> set (consolidates_to a). match_id g (target_id c) = [] \<and> target_id c \<noteq> fresh_id env)
        \<longrightarrow> rels g' = rels g)"
proof -
  let ?QI = "\<lambda>i. match_id g (entity_id i) \<noteq> [] \<or> entity_id i = fresh_id env"
  let ?QP = "\<lambda>p. events_with_id g p \<noteq> [] \<or> p = fresh_id env"
  let ?QC = "\<lambda>c. match_id g (target_id c) \<noteq> [] \<or> target_id c = fresh_id env"
  let ?a' = "a\<lparr>involves := filter ?QI (involves a), precedes := filter ?QP (precedes a),
               consolidates_to := filter ?QC (consolidates_to a)\<rparr>"
  let ?g1 = "add_node (event_node env a emb) g"
  from exec_encode[OF fresh, of a emb]
  obtain g' where g': "exec_all (encode_stmts env a emb) g = Inr g'"
      "exec_all (encode_stmts env ?a' emb) g = Inr g'" "nodes g' = nodes ?g1"
      "filter ?QI (involves a) = [] \<and> filter ?QP (precedes a) = []
         \<and> filter ?QC (consolidates_to a) = [] \<longrightarrow> g' = ?g1"
    by blast
  have ev: "events_with_id g' (fresh_id env) \<noteq> []"
    using events_with_id_cong[OF g'(3), of "fresh_id env"]
    by (simp add: events_with_id_add_node event_node_id)
  from encode_nofail[OF valid emb nofail g'(1) ev]
  obtain tr res where h: "handleEncodeMemory env g a = (tr, g', Inr res)" "CommitTx \<in> set tr"
     "er_relationships_created res
        = length (involves a) + length (precedes a) + length (consolidates_to a)" by blast
  have valid': "- 1 \<le> ev_emotional_valence (event ?a')" "ev_emotional_valence (event ?a') \<le> 1"
      "0 \<le> ev_significance (event ?a')" "ev_significance (event ?a') \<le> 1"
    and emb': "generateEmbedding env (embeddingText (event ?a')) = Some emb"
    using valid emb by simp_all
  from encode_nofail[OF valid' emb' nofail g'(2) ev]
  obtain tr' res' where h': "handleEncodeMemory env g ?a' = (tr', g', Inr res')" by blast
  have none: "rels g' = rels g"
    if "\<forall>i \<in> set (involves a). match_id g (entity_id i) = [] \<and> entity_id i \<noteq> fresh_id env"
       "\<forall>p \<in> set (precedes a). events_with_id g p = [] \<and> p \<noteq> fresh_id env"
       "\<forall>c \<in> set (consolidates_to a). match_id g (target_id c) = [] \<and> target_id c \<noteq> fresh_id env"
  proof -
    have "filter ?QI (involves a) = []" "filter ?QP (precedes a) = []"
         "filter ?QC (consolidates_to a) = []"
      using that by (auto simp: filter_empty_conv)
    with g'(4) have "g' = ?g1" by simp
    then show ?thesis by (simp add: add_node_def)
  qed
  show ?thesis
    unfolding h h' using h(2,3) g'(3) none by (simp add: add_node_def)
qed

text \<open>
  The theorem at a store of two people and a call of which no reference resolves.
\<close>

theorem encode_unresolved_reference_skipped_witness:
  "events_with_id two_people (fresh_id env_ok) = []
   \<and> map entity_id (involves ghost_call) = [''ghost'']
   \<and> precedes ghost_call = [''nowhere'']
   \<and> map target_id (consolidates_to ghost_call) = [''phantom'']
   \<and> match_id two_people ''ghost'' = [] \<and> events_with_id two_people ''nowhere'' = []
   \<and> match_id two_people ''phantom'' = []
   \<and> \<not> isl (snd (snd (handleEncodeMemory env_ok two_people ghost_call)))
   \<and> rels (fst (snd (handleEncodeMemory env_ok two_people ghost_call))) = rels two_people
   \<and> length (nodes (fst (snd (handleEncodeMemory env_ok two_people ghost_call))))
       = Suc (length (nodes two_people))"
proof -
  have v: "- 1 \<le> ev_emotional_valence (event ghost_call)"
      "ev_emotional_valence (event ghost_call) \<le> 1"
      "0 \<le> ev_significance (event ghost_call)" "ev_significance (event ghost_call) \<le> 1"
    by (simp_all add: ghost_call_def encode_call_def)
  have e: "generateEmbedding env_ok (embeddingText (event ghost_call)) = Some [1 / 10, 2 / 10]"
    by (simp add: env_ok_def)
  have nf: "\<forall>k. \<not> store_fails env_ok k" by (simp add: env_ok_def)
  have fr: "events_with_id two_people (fresh_id env_ok) = []" by code_simp
  have u1: "\<forall>i \<in> set (involves ghost_call).
         match_id two_people (entity_id i) = [] \<and> entity_id i \<noteq> fresh_id env_ok"
    by code_simp
  have u2: "\<forall>p \<in> set (precedes ghost_call). events_with_id two_people p = [] \<and> p \<noteq> fresh_id env_ok"
    by code_simp
  have u3: "\<forall>c \<in> set (consolidates_to ghost_call).
         match_id two_people (target_id c) = [] \<and> target_id c \<noteq> fresh_id env_ok"
    by code_simp
  have ne: "involves ghost_call \<noteq> [] \<and> precedes ghost_call \<noteq> [] \<and> consolidates_to ghost_call \<noteq> []"
    by (simp add: ghost_call_def encode_call_def)
  from encode_unresolved_reference_skipped[OF v e nf fr] u1 u2 u3
  have "\<not> isl (snd (snd (handleEncodeMemory env_ok two_people ghost_call)))
      \<and> rels (fst (snd (handleEncodeMemory env_ok two_people ghost_call))) = rels two_people
      \<and> length (nodes (fst (snd (handleEncodeMemory env_ok two_people ghost_call))))
          = Suc (length (nodes two_people))"
    by (auto split: prod.splits)
  moreover have "map entity_id (involves ghost_call) = [''ghost'']
      \<and> precedes ghost_call = [''nowhere'']
      \<and> map target_id (consolidates_to ghost_call) = [''phantom'']
      \<and> match_id two_people ''ghost'' = [] \<and> events_with_id two_people ''nowhere'' = []
      \<and> match_id two_people ''phantom'' = []"
    by code_simp
  ultimately show ?thesis using fr by blast
qed

lemma encode_embedding_failure:
  assumes "generateEmbedding env (embeddingText (event a)) = None"
  shows "handleEncodeMemory env g a =
     (if ev_emotional_valence (event a) < - 1 \<or> ev_emotional_valence (event a) > 1 then
        ([BeginTx, RollbackTx, CloseSession], g,
         Inl (ValidationError ''emotional_valence must be between -1.0 and 1.0''))
      else if ev_significance (event a) < 0 \<or> ev_significance (event a) > 1 then
        ([BeginTx, RollbackTx, CloseSession], g,
         Inl (ValidationError ''significance must be between 0.0 and 1.0''))
      else ([BeginTx, Embed (embeddingText (event a)), RollbackTx, CloseSession], g,
            Inl EmbeddingError))"
  using assms by (simp add: handleEncodeMemory_def Let_def)

text \<open>
  Claim C6, as the code has it. When the embedding provider fails, \<open>encode_memory\<close>
  fails and leaves the store as it was: no statement is run and nothing is committed. The
  transaction is not unopened, though: the handler begins it before anything else, and
  rolls it back. For an event with valid ranges the calls are exactly: begin, the
  embedding request, rollback, close.
\<close>

theorem encode_embedding_failure_rolls_back:
  assumes "generateEmbedding env (embeddingText (event a)) = None"
  shows "case handleEncodeMemory env g a of (tr, g', r) \<Rightarrow>
      g' = g \<and> isl r \<and> (\<forall>s. Run s \<notin> set tr) \<and> CommitTx \<notin> set tr
    \<and> hd tr = BeginTx \<and> RollbackTx \<in> set tr
    \<and> (- 1 \<le> ev_emotional_valence (event a) \<and> ev_emotional_valence (event a) \<le> 1
        \<and> 0 \<le> ev_significance (event a) \<and> ev_significance (event a) \<le> 1 \<longrightarrow>
          r = Inl EmbeddingError
        \<and> tr = [BeginTx, Embed (embeddingText (event a)), RollbackTx, CloseSession])"
  by (auto simp: encode_embedding_failure[OF assms])

theorem encode_embedding_failure_rolls_back_witness:
  "generateEmbedding env_no_embedding (embeddingText (event (encode_call (1 / 2)))) = None
   \<and> - 1 \<le> ev_emotional_valence (event (encode_call (1 / 2)))
   \<and> ev_emotional_valence (event (encode_call (1 / 2))) \<le> 1
   \<and> 0 \<le> ev_significance (event (encode_call (1 / 2)))
   \<and> ev_significance (event (encode_call (1 / 2))) \<le> 1
   \<and> fst (snd (handleEncodeMemory env_no_embedding two_people (encode_call (1 / 2)))) = two_people
   \<and> snd (snd (handleEncodeMemory env_no_embedding two_people (encode_call (1 / 2))))
       = Inl EmbeddingError"
proof -
  have n: "generateEmbedding env_no_embedding (embeddingText (event (encode_call (1 / 2)))) = None"
    by (simp add: env_no_embedding_def)
  have v: "- 1 \<le> ev_emotional_valence (event (encode_call (1 / 2)))
      \<and> ev_emotional_valence (event (encode_call (1 / 2))) \<le> 1
      \<and> 0 \<le> ev_significance (event (encode_call (1 / 2)))
      \<and> ev_significance (event (encode_call (1 / 2))) \<le> 1"
    by (simp add: encode_call_def)
  from encode_embedding_failure_rolls_back[OF n, of two_people] v n show ?thesis
    by (auto split: prod.splits)
qed

text \<open>
  Claim C6 as stated fails: with a failing embedding provider the first call the handler
  makes is the opening of the transaction, before the embedding is requested.
\<close>

theorem encode_embedding_failure_counterexample:
  "generateEmbedding env_no_embedding (embeddingText (event (encode_call (1 / 2)))) = None
   \<and> fst (handleEncodeMemory env_no_embedding two_people (encode_call (1 / 2)))
       = [BeginTx, Embed ''kickoff'', RollbackTx, CloseSession]"
  by code_simp

text \<open>
  Claim C1 at three inputs with a value of 1.5. \<open>encode_memory\<close> rejects the valence and
  writes nothing. \<open>evolve_bond\<close> accepts the strength and stores a bond of strength 1.5;
  \<open>hippocampus_write_event\<close> accepts the intensity and stores an Effect of intensity 1.5:
  neither handler checks a range.
\<close>

theorem range_validation_only_in_encode:
  "fst (snd (handleEncodeMemory env_ok two_people (encode_call (3 / 2)))) = two_people
   \<and> snd (snd (handleEncodeMemory env_ok two_people (encode_call (3 / 2))))
       = Inl (ValidationError ''emotional_valence must be between -1.0 and 1.0'')
   \<and> \<not> isl (snd (handleEvolveBond 7 two_people (bond_call (3 / 2))))
   \<and> map (\<lambda>r. getp (rprops r) ''strength'')
         (bonds (fst (handleEvolveBond 7 two_people (bond_call (3 / 2)))) 0 1) = [VNum (3 / 2)]
   \<and> \<not> isl (snd (snd (handleWriteEvent env_ok empty_graph loud_episode)))
   \<and> map (\<lambda>n. getp (nprops n) ''intensity'')
         (filter (\<lambda>n. ''Effect'' \<in> set (labels n))
            (nodes (fst (snd (handleWriteEvent env_ok empty_graph loud_episode)))))
       = [VNum (3 / 2)]"
  by code_simp


section \<open>Properties of \<open>handleWriteEvent\<close>\<close>

lemma node_matches_sat: "node_matches g l kvs n = node_sat (nodes g ! n) l kvs"
  by (simp add: node_matches_def node_sat_def has_label_def nprop_def)

lemma match_nodes_map: "map (\<lambda>i. nodes g ! i) (match_nodes g l kvs) = filter (\<lambda>n. node_sat n l kvs) (nodes g)"
proof -
  have "map (\<lambda>i. nodes g ! i) (filter (\<lambda>i. node_sat (nodes g ! i) l kvs) [0..<length (nodes g)])
        = filter (\<lambda>n. node_sat n l kvs) (map (\<lambda>i. nodes g ! i) [0..<length (nodes g)])"
    by (simp add: filter_map comp_def)
  then show ?thesis
    by (simp add: match_nodes_def all_nodes_def node_matches_sat[abs_def] map_nth)
qed

lemma count_nodes_filter: "count_nodes g l kvs = length (filter (\<lambda>n. node_sat n l kvs) (nodes g))"
  using arg_cong[OF match_nodes_map[of g l kvs], of length] by (simp add: count_nodes_def)

lemma count_nodes_append:
  "nodes g' = nodes g @ ns \<Longrightarrow>
     count_nodes g' l kvs = count_nodes g l kvs + length (filter (\<lambda>n. node_sat n l kvs) ns)"
  by (simp add: count_nodes_filter)

lemma match_nodes_append_unsat:
  assumes a: "nodes g' = nodes g @ ns" and u: "\<forall>n \<in> set ns. \<not> node_sat n l kvs"
  shows "match_nodes g' l kvs = match_nodes g l kvs"
proof -
  let ?P = "\<lambda>i. node_sat ((nodes g @ ns) ! i) l kvs"
  have 1: "[0..<length (nodes g) + length ns]
             = [0..<length (nodes g)] @ [length (nodes g)..<length (nodes g) + length ns]"
    using upt_add_eq_append[of 0 "length (nodes g)" "length ns"] by simp
  have 2: "filter ?P [0..<length (nodes g)]
         = filter (\<lambda>i. node_sat (nodes g ! i) l kvs) [0..<length (nodes g)]"
    by (rule filter_cong) (auto simp: nth_append)
  have 3: "filter ?P [length (nodes g)..<length (nodes g) + length ns] = []"
    using u by (auto simp: filter_empty_conv nth_append)
  show ?thesis
    unfolding match_nodes_def all_nodes_def node_matches_sat[abs_def] a
    using 1 2 3 by simp
qed

lemma nodes_merge_rel [simp]: "nodes (merge_rel t a b g) = nodes g"
  by (simp add: merge_rel_def)

lemma nodes_fold_merge_rel:
  "nodes (fold (\<lambda>x. if out then merge_rel t e x else merge_rel t x e) xs g) = nodes g"
  by (induction xs arbitrary: g) auto

lemma nodes_merge_node:
  "nodes (fst (merge_node l keys extra g)) = nodes g @ upsert_new g l keys extra"
  by (simp add: merge_node_def upsert_new_def Let_def add_node_def)

lemma length_snd_merge_node:
  "length (snd (merge_node l keys extra g)) = max 1 (count_nodes g l keys)"
  by (cases "match_nodes g l keys") (simp_all add: merge_node_def Let_def count_nodes_def)

lemma link_row_nodes:
  "nodes (link_row l keys extra t out e g) = nodes g @ upsert_new g l keys extra"
  using nodes_merge_node[of l keys extra g]
  by (simp add: link_row_def case_prod_unfold Let_def nodes_fold_merge_rel)

lemma nodes_effect_target:
  "nodes (effect_target fprops e t g) = nodes g @ [\<lparr>labels = [''Effect''], nprops = mkprops fprops\<rparr>]"
  by (simp add: effect_target_def Let_def add_node_def)

lemma nodes_fold_effect_target:
  "nodes (fold (effect_target fprops e) ts g)
     = nodes g @ replicate (length ts) \<lparr>labels = [''Effect''], nprops = mkprops fprops\<rparr>"
  by (induction ts arbitrary: g) (simp_all add: nodes_effect_target replicate_append_same)

lemma effect_row_nodes:
  "nodes (effect_row tkeys fprops e g)
     = nodes g @ upsert_new g ''Target'' tkeys []
       @ replicate (max 1 (count_nodes g ''Target'' tkeys))
           \<lparr>labels = [''Effect''], nprops = mkprops fprops\<rparr>"
  using nodes_merge_node[of "''Target''" tkeys "[]" g] length_snd_merge_node[of "''Target''" tkeys "[]" g]
  by (simp add: effect_row_def case_prod_unfold Let_def nodes_fold_effect_target)

lemma exec_merge_step:
  assumes mk: "merge_key s = Some (eid, l, k)" and ev: "events_with_id g eid = [e]"
  shows "\<exists>g'. exec_stmt s g = Inr g' \<and> nodes g' = nodes g @ new_nodes s g"
  using mk ev
  by (cases s) (simp_all add: merge_link_def link_row_nodes effect_row_nodes)

lemma sat_upsert:
  "length (filter (\<lambda>n. node_sat n l' kvs') (upsert_new g l keys extra))
     = (if match_nodes g l keys = []
           \<and> node_sat \<lparr>labels = [l], nprops = mkprops (keys @ extra)\<rparr> l' kvs' then 1 else 0)"
  by (simp add: upsert_new_def)

lemma sat_simps:
  "node_sat \<lparr>labels = [l], nprops = ps\<rparr> l' [] = (l = l')"
  "node_sat \<lparr>labels = [l], nprops = ps\<rparr> l' [(k1, v1)] = (l = l' \<and> v1 \<noteq> VNull \<and> getp ps k1 = v1)"
  "node_sat \<lparr>labels = [l], nprops = ps\<rparr> l' [(k1, v1), (k2, v2)]
     = (l = l' \<and> v1 \<noteq> VNull \<and> getp ps k1 = v1 \<and> v2 \<noteq> VNull \<and> getp ps k2 = v2)"
  by (auto simp: node_sat_def)

lemma new_nodes_Person:
  assumes "merge_key s = Some (eid, l, k)"
  shows "length (filter (\<lambda>n. node_sat n ''Person'' [(''name'', VStr x)]) (new_nodes s g))
           = (if l = ''Person'' \<and> k = [(''name'', VStr x)] \<and> match_nodes g l k = [] then 1 else 0)"
  using assms
  by (cases s) (auto simp: sat_upsert sat_simps mkprops_def getp_def)

lemma new_nodes_Agent:
  assumes "merge_key s = Some (eid, l, k)"
  shows "length (filter (\<lambda>n. node_sat n ''Agent'' [(''id'', VStr x)]) (new_nodes s g))
           = (if l = ''Agent'' \<and> k = [(''id'', VStr x)] \<and> match_nodes g l k = [] then 1 else 0)"
  using assms
  by (cases s) (auto simp: sat_upsert sat_simps mkprops_def getp_def)

lemma new_nodes_Entity:
  assumes "merge_key s = Some (eid, l, k)"
  shows "length (filter (\<lambda>n. node_sat n ''Entity'' [(''id'', VStr x)]) (new_nodes s g))
           = (if l = ''Entity'' \<and> k = [(''id'', VStr x)] \<and> match_nodes g l k = [] then 1 else 0)"
  using assms
  by (cases s) (auto simp: sat_upsert sat_simps mkprops_def getp_def)

lemma new_nodes_Place:
  assumes "merge_key s = Some (eid, l, k)"
  shows "length (filter (\<lambda>n. node_sat n ''Place'' [(''name'', VStr x)]) (new_nodes s g))
           = (if l = ''Place'' \<and> k = [(''name'', VStr x)] \<and> match_nodes g l k = [] then 1 else 0)"
  using assms
  by (cases s) (auto simp: sat_upsert sat_simps mkprops_def getp_def)

lemma new_nodes_Catalyst:
  assumes "merge_key s = Some (eid, l, k)"
  shows "length (filter (\<lambda>n. node_sat n ''Catalyst'' [(''description'', VStr x)]) (new_nodes s g))
           = (if l = ''Catalyst'' \<and> k = [(''description'', VStr x)] \<and> match_nodes g l k = [] then 1 else 0)"
  using assms
  by (cases s) (auto simp: sat_upsert sat_simps mkprops_def getp_def)

lemma new_nodes_Target:
  assumes "merge_key s = Some (eid, l, k)"
  shows "length (filter (\<lambda>n. node_sat n ''Target'' [(''id'', VStr x), (''kind'', VStr y)]) (new_nodes s g))
           = (if l = ''Target'' \<and> k = [(''id'', VStr x), (''kind'', VStr y)] \<and> match_nodes g l k = [] then 1 else 0)"
  using assms
  by (cases s) (auto simp: sat_upsert sat_simps mkprops_def getp_def)

lemma new_nodes_ident:
  assumes "ident_key l' kvs'" and "merge_key s = Some (eid, l, k)"
  shows "length (filter (\<lambda>n. node_sat n l' kvs') (new_nodes s g))
           = (if l = l' \<and> k = kvs' \<and> match_nodes g l k = [] then 1 else 0)"
  using assms(1) unfolding ident_key_def
proof (elim disjE exE conjE)
  fix x assume "l' = ''Person''" "kvs' = [(''name'', VStr x)]"
  then show ?thesis using new_nodes_Person[OF assms(2), of x g] by simp
next
  fix x assume "l' = ''Agent''" "kvs' = [(''id'', VStr x)]"
  then show ?thesis using new_nodes_Agent[OF assms(2), of x g] by simp
next
  fix x assume "l' = ''Entity''" "kvs' = [(''id'', VStr x)]"
  then show ?thesis using new_nodes_Entity[OF assms(2), of x g] by simp
next
  fix x assume "l' = ''Place''" "kvs' = [(''name'', VStr x)]"
  then show ?thesis using new_nodes_Place[OF assms(2), of x g] by simp
next
  fix x assume "l' = ''Catalyst''" "kvs' = [(''description'', VStr x)]"
  then show ?thesis using new_nodes_Catalyst[OF assms(2), of x g] by simp
next
  fix x y assume "l' = ''Target''" "kvs' = [(''id'', VStr x), (''kind'', VStr y)]"
  then show ?thesis using new_nodes_Target[OF assms(2), of x y g] by simp
qed

lemma new_nodes_event:
  assumes "merge_key s = Some (eid, l, k)"
  shows "\<forall>n \<in> set (new_nodes s g). \<not> node_sat n ''Event'' kvs"
  using assms
  by (cases s) (auto simp: upsert_new_def node_sat_def)

lemma new_nodes_effect:
  assumes "merge_key s = Some (eid, l, k)"
  shows "length (filter (\<lambda>n. node_sat n ''Effect'' []) (new_nodes s g))
           = (if is_effect_stmt s then max 1 (count_nodes g l k) else 0)"
  using assms
  by (cases s) (auto simp: sat_upsert sat_simps)

lemma merge_key_ident_aux:
  "case merge_key s of None \<Rightarrow> True | Some (e, l, k) \<Rightarrow> ident_key l k"
  by (cases s) (simp_all add: ident_key_def)

lemma merge_key_ident: "merge_key s = Some (eid, l, k) \<Longrightarrow> ident_key l k"
  using merge_key_ident_aux[of s] by simp

lemma effect_stmt_key: "is_effect_stmt s \<Longrightarrow> merge_key s = Some (eid, l, k) \<Longrightarrow> l = ''Target''"
  by (cases s) simp_all

lemma merge_step_counts:
  assumes mk: "merge_key s = Some (eid, l, k)" and ev: "events_with_id g eid = [e]"
  shows "\<exists>g'. exec_stmt s g = Inr g' \<and> events_with_id g' eid = [e]
     \<and> count_nodes g' ''Event'' [] = count_nodes g ''Event'' []
     \<and> count_nodes g' ''Effect'' []
         = count_nodes g ''Effect'' [] + (if is_effect_stmt s then max 1 (count_nodes g l k) else 0)
     \<and> (\<forall>l' kvs'. ident_key l' kvs' \<longrightarrow>
           count_nodes g' l' kvs'
             = count_nodes g l' kvs' + (if l = l' \<and> k = kvs' \<and> count_nodes g l k = 0 then 1 else 0))"
proof -
  from exec_merge_step[OF mk ev] obtain g' where
    g': "exec_stmt s g = Inr g'" "nodes g' = nodes g @ new_nodes s g" by auto
  have 1: "events_with_id g' eid = [e]"
    using match_nodes_append_unsat[OF g'(2) new_nodes_event[OF mk]] ev
    by (simp add: events_with_id_def)
  have 2: "count_nodes g' ''Event'' [] = count_nodes g ''Event'' []"
    using match_nodes_append_unsat[OF g'(2) new_nodes_event[OF mk]]
    by (simp add: count_nodes_def)
  have 3: "count_nodes g' ''Effect'' []
         = count_nodes g ''Effect'' [] + (if is_effect_stmt s then max 1 (count_nodes g l k) else 0)"
    using count_nodes_append[OF g'(2)] new_nodes_effect[OF mk] by simp
  have 4: "count_nodes g' l' kvs'
             = count_nodes g l' kvs' + (if l = l' \<and> k = kvs' \<and> count_nodes g l k = 0 then 1 else 0)"
    if "ident_key l' kvs'" for l' kvs'
    using count_nodes_append[OF g'(2)] new_nodes_ident[OF that mk] by (simp add: count_nodes_def)
  from g'(1) 1 2 3 4 show ?thesis by simp
qed

lemma merge_run_counts:
  assumes "\<forall>s \<in> set ss. \<exists>l k. merge_key s = Some (eid, l, k)" and "events_with_id g eid = [e]"
  shows "\<exists>g'. exec_all ss g = Inr g' \<and> events_with_id g' eid = [e]
     \<and> count_nodes g' ''Event'' [] = count_nodes g ''Event'' []
     \<and> count_nodes g ''Effect'' [] + length (filter is_effect_stmt ss) \<le> count_nodes g' ''Effect'' []
     \<and> ((\<forall>s \<in> set ss. \<forall>k. merge_key s = Some (eid, ''Target'', k) \<longrightarrow> count_nodes g ''Target'' k \<le> 1)
          \<longrightarrow> count_nodes g' ''Effect'' [] = count_nodes g ''Effect'' [] + length (filter is_effect_stmt ss))
     \<and> (\<forall>l kvs. ident_key l kvs \<longrightarrow>
           count_nodes g l kvs \<le> count_nodes g' l kvs
         \<and> count_nodes g' l kvs \<le> max 1 (count_nodes g l kvs)
         \<and> ((\<exists>s \<in> set ss. merge_key s = Some (eid, l, kvs)) \<longrightarrow> 1 \<le> count_nodes g' l kvs))"
  using assms
proof (induction ss arbitrary: g)
  case Nil
  then show ?case by simp
next
  case (Cons s ss)
  from Cons.prems(1) obtain l k where mk: "merge_key s = Some (eid, l, k)" by auto
  from merge_step_counts[OF mk Cons.prems(2)] obtain g1 where
    g1: "exec_stmt s g = Inr g1" "events_with_id g1 eid = [e]"
      "count_nodes g1 ''Event'' [] = count_nodes g ''Event'' []"
      "count_nodes g1 ''Effect'' []
         = count_nodes g ''Effect'' [] + (if is_effect_stmt s then max 1 (count_nodes g l k) else 0)"
      "\<And>l' kvs'. ident_key l' kvs' \<Longrightarrow>
           count_nodes g1 l' kvs'
             = count_nodes g l' kvs' + (if l = l' \<and> k = kvs' \<and> count_nodes g l k = 0 then 1 else 0)"
    by blast
  have tl: "\<forall>s \<in> set ss. \<exists>l k. merge_key s = Some (eid, l, k)" using Cons.prems(1) by simp
  from Cons.IH[OF tl g1(2)] obtain g' where
    g': "exec_all ss g1 = Inr g'" "events_with_id g' eid = [e]"
      "count_nodes g' ''Event'' [] = count_nodes g1 ''Event'' []"
      "count_nodes g1 ''Effect'' [] + length (filter is_effect_stmt ss) \<le> count_nodes g' ''Effect'' []"
      "(\<forall>s \<in> set ss. \<forall>k. merge_key s = Some (eid, ''Target'', k) \<longrightarrow> count_nodes g1 ''Target'' k \<le> 1)
          \<longrightarrow> count_nodes g' ''Effect'' [] = count_nodes g1 ''Effect'' [] + length (filter is_effect_stmt ss)"
      "\<And>l kvs. ident_key l kvs \<Longrightarrow>
           count_nodes g1 l kvs \<le> count_nodes g' l kvs
         \<and> count_nodes g' l kvs \<le> max 1 (count_nodes g1 l kvs)
         \<and> ((\<exists>s \<in> set ss. merge_key s = Some (eid, l, kvs)) \<longrightarrow> 1 \<le> count_nodes g' l kvs)"
    by blast
  have ex: "exec_all (s # ss) g = Inr g'" using g1(1) g'(1) by (simp add: exec_all_Cons)
  have eff1: "count_nodes g ''Effect'' [] + length (filter is_effect_stmt (s # ss)) \<le> count_nodes g' ''Effect'' []"
    using g1(4) g'(4) by (simp split: if_splits)
  have eff2: "count_nodes g' ''Effect'' [] = count_nodes g ''Effect'' [] + length (filter is_effect_stmt (s # ss))"
    if u: "\<forall>s \<in> set (s # ss). \<forall>k. merge_key s = Some (eid, ''Target'', k) \<longrightarrow> count_nodes g ''Target'' k \<le> 1"
  proof -
    have "\<forall>s \<in> set ss. \<forall>k. merge_key s = Some (eid, ''Target'', k) \<longrightarrow> count_nodes g1 ''Target'' k \<le> 1"
    proof (intro ballI allI impI)
      fix s' k' assume s': "s' \<in> set ss" and k': "merge_key s' = Some (eid, ''Target'', k')"
      have i: "ident_key ''Target'' k'" by (rule merge_key_ident[OF k'])
      have "count_nodes g ''Target'' k' \<le> 1" using u s' k' by simp
      then show "count_nodes g1 ''Target'' k' \<le> 1"
        using g1(5)[OF i] by (cases "l = ''Target'' \<and> k = k' \<and> count_nodes g l k = 0") simp_all
    qed
    with g'(5) have a: "count_nodes g' ''Effect'' [] = count_nodes g1 ''Effect'' [] + length (filter is_effect_stmt ss)"
      by simp
    have b: "is_effect_stmt s \<Longrightarrow> max 1 (count_nodes g l k) = 1"
    proof -
      assume e: "is_effect_stmt s"
      have "l = ''Target''" by (rule effect_stmt_key[OF e mk])
      with u mk have "count_nodes g l k \<le> 1" by simp
      then show ?thesis by simp
    qed
    show ?thesis using a b g1(4) by simp
  qed
  have idk: "count_nodes g l' kvs \<le> count_nodes g' l' kvs
         \<and> count_nodes g' l' kvs \<le> max 1 (count_nodes g l' kvs)
         \<and> ((\<exists>s \<in> set (s # ss). merge_key s = Some (eid, l', kvs)) \<longrightarrow> 1 \<le> count_nodes g' l' kvs)"
    if i: "ident_key l' kvs" for l' kvs
  proof -
    note a = g1(5)[OF i] and b = g'(6)[OF i]
    have 1: "count_nodes g l' kvs \<le> count_nodes g' l' kvs" using a b by simp
    have 2: "count_nodes g' l' kvs \<le> max 1 (count_nodes g l' kvs)"
      using a b by (simp split: if_splits)
    have 3: "1 \<le> count_nodes g' l' kvs" if "\<exists>s \<in> set (s # ss). merge_key s = Some (eid, l', kvs)"
    proof (cases "merge_key s = Some (eid, l', kvs)")
      case True
      with mk have "l = l'" "k = kvs" by simp_all
      then have "1 \<le> count_nodes g1 l' kvs" using a by (simp split: if_splits)
      then show ?thesis using b by simp
    next
      case False
      with that have "\<exists>s \<in> set ss. merge_key s = Some (eid, l', kvs)" by simp
      then show ?thesis using b by simp
    qed
    from 1 2 3 show ?thesis by simp
  qed
  from ex g'(2) g'(3) g1(3) eff1 eff2 idk show ?case by simp
qed

lemma who_stmts_keys: "\<forall>s \<in> set (who_stmts eid p). \<exists>l k. merge_key s = Some (eid, l, k)"
  by (simp add: who_stmts_def)

lemma who_stmts_effect: "filter is_effect_stmt (concat (map (who_stmts eid) ps)) = []"
  by (induction ps) (simp_all add: who_stmts_def)

lemma filter_effect_map_none:
  "(\<And>x. \<not> is_effect_stmt (f x)) \<Longrightarrow> filter is_effect_stmt (map f xs) = []"
  by (induction xs) simp_all

lemma filter_effect_map_all:
  "(\<And>x. is_effect_stmt (f x)) \<Longrightarrow> filter is_effect_stmt (map f xs) = map f xs"
  by (induction xs) simp_all

lemma write_stmts_split:
  "write_stmts env ev =
     CreateEpisode (episode_id env ev) (case ep_happened_at ev of None \<Rightarrow> clock env | Some t \<Rightarrow> t)
       (ep_title ev) (ep_description ev) # write_rest env ev"
  by (simp add: write_rest_def write_stmts_def Let_def)

lemma write_rest_keys:
  "\<forall>s \<in> set (write_rest env ev). \<exists>l k. merge_key s = Some (episode_id env ev, l, k)"
  using who_stmts_keys[of "episode_id env ev"]
  by (auto simp: write_rest_def write_stmts_def Let_def split: option.splits)

lemma write_rest_effects:
  "length (filter is_effect_stmt (write_rest env ev)) = length (ep_effects ev)"
  by (simp add: write_rest_def write_stmts_def Let_def who_stmts_effect filter_effect_map_none
        filter_effect_map_all split: option.splits)

lemma ident_key_label:
  "ident_key l kvs \<Longrightarrow> l \<noteq> ''Event'' \<and> l \<noteq> ''Effect''"
  unfolding ident_key_def by (elim disjE exE conjE) simp_all

lemma create_episode_counts:
  assumes "exec_stmt (CreateEpisode eid t ti d) g = Inr g0"
  shows "events_with_id g0 eid = [length (nodes g)]"
    and "count_nodes g0 ''Event'' [] = Suc (count_nodes g ''Event'' [])"
    and "count_nodes g0 ''Effect'' [] = count_nodes g ''Effect'' []"
    and "ident_key l kvs \<Longrightarrow> count_nodes g0 l kvs = count_nodes g l kvs"
proof -
  let ?n = "\<lparr>labels = [''Event''],
             nprops = mkprops [(''id'', VStr eid), (''happened_at'', VTime t), (''title'', VStr ti),
                               (''description'', VStr d)]\<rparr>"
  from assms have e: "events_with_id g eid = []" and g0: "g0 = add_node ?n g"
    by (auto simp: create_event_node_def split: if_splits)
  have n: "nodes g0 = nodes g @ [?n]" by (simp add: g0 add_node_def)
  show "events_with_id g0 eid = [length (nodes g)]"
    using e by (simp add: g0 events_with_id_add_node mkprops_def getp_def)
  show "count_nodes g0 ''Event'' [] = Suc (count_nodes g ''Event'' [])"
    using count_nodes_append[OF n] by (simp add: node_sat_def)
  show "count_nodes g0 ''Effect'' [] = count_nodes g ''Effect'' []"
    using count_nodes_append[OF n] by (simp add: node_sat_def)
  show "count_nodes g0 l kvs = count_nodes g l kvs" if "ident_key l kvs"
    using count_nodes_append[OF n] ident_key_label[OF that] by (simp add: node_sat_def)
qed

lemma write_success_exec:
  assumes "handleWriteEvent env g ev = (tr, g', Inr r)"
  shows "exec_all (write_stmts env ev) g = Inr g'"
  using write_cases[OF assms] by (simp add: exec_all_def)

lemma write_call_counts:
  assumes h: "handleWriteEvent env g ev = (tr, g', Inr r)"
  shows "count_nodes g' ''Event'' [] = Suc (count_nodes g ''Event'' [])"
    and "count_nodes g ''Effect'' [] + length (ep_effects ev) \<le> count_nodes g' ''Effect'' []"
    and "(\<forall>s \<in> set (write_rest env ev). \<forall>k. merge_key s = Some (episode_id env ev, ''Target'', k)
            \<longrightarrow> count_nodes g ''Target'' k \<le> 1)
          \<Longrightarrow> count_nodes g' ''Effect'' [] = count_nodes g ''Effect'' [] + length (ep_effects ev)"
    and "ident_key l kvs \<Longrightarrow>
           count_nodes g l kvs \<le> count_nodes g' l kvs
         \<and> count_nodes g' l kvs \<le> max 1 (count_nodes g l kvs)
         \<and> ((\<exists>s \<in> set (write_rest env ev). merge_key s = Some (episode_id env ev, l, kvs))
               \<longrightarrow> 1 \<le> count_nodes g' l kvs)"
proof -
  let ?eid = "episode_id env ev"
  let ?c = "CreateEpisode ?eid (case ep_happened_at ev of None \<Rightarrow> clock env | Some t \<Rightarrow> t)
       (ep_title ev) (ep_description ev)"
  from write_success_exec[OF h] obtain g0 where
    c: "exec_stmt ?c g = Inr g0" and r: "exec_all (write_rest env ev) g0 = Inr g'"
    by (auto simp: write_stmts_split exec_all_Cons split: sum.splits)
  note cr = create_episode_counts[OF c]
  from merge_run_counts[OF write_rest_keys cr(1)] r
  have m: "count_nodes g' ''Event'' [] = count_nodes g0 ''Event'' []"
     "count_nodes g0 ''Effect'' [] + length (filter is_effect_stmt (write_rest env ev))
         \<le> count_nodes g' ''Effect'' []"
     "(\<forall>s \<in> set (write_rest env ev). \<forall>k. merge_key s = Some (?eid, ''Target'', k)
            \<longrightarrow> count_nodes g0 ''Target'' k \<le> 1)
          \<longrightarrow> count_nodes g' ''Effect'' []
                = count_nodes g0 ''Effect'' [] + length (filter is_effect_stmt (write_rest env ev))"
     "\<And>l kvs. ident_key l kvs \<Longrightarrow>
           count_nodes g0 l kvs \<le> count_nodes g' l kvs
         \<and> count_nodes g' l kvs \<le> max 1 (count_nodes g0 l kvs)
         \<and> ((\<exists>s \<in> set (write_rest env ev). merge_key s = Some (?eid, l, kvs))
               \<longrightarrow> 1 \<le> count_nodes g' l kvs)"
    by auto
  show "count_nodes g' ''Event'' [] = Suc (count_nodes g ''Event'' [])"
    using m(1) cr(2) by simp
  show "count_nodes g ''Effect'' [] + length (ep_effects ev) \<le> count_nodes g' ''Effect'' []"
    using m(2) cr(3) by (simp add: write_rest_effects)
  show "count_nodes g' ''Effect'' [] = count_nodes g ''Effect'' [] + length (ep_effects ev)"
    if u: "\<forall>s \<in> set (write_rest env ev). \<forall>k. merge_key s = Some (?eid, ''Target'', k)
            \<longrightarrow> count_nodes g ''Target'' k \<le> 1"
  proof -
    have "\<forall>s \<in> set (write_rest env ev). \<forall>k. merge_key s = Some (?eid, ''Target'', k)
            \<longrightarrow> count_nodes g0 ''Target'' k \<le> 1"
    proof (intro ballI allI impI)
      fix s k assume s: "s \<in> set (write_rest env ev)" and k: "merge_key s = Some (?eid, ''Target'', k)"
      from cr(4)[OF merge_key_ident[OF k]] u s k show "count_nodes g0 ''Target'' k \<le> 1" by simp
    qed
    with m(3) cr(3) show ?thesis by (simp add: write_rest_effects)
  qed
  show "count_nodes g l kvs \<le> count_nodes g' l kvs
         \<and> count_nodes g' l kvs \<le> max 1 (count_nodes g l kvs)
         \<and> ((\<exists>s \<in> set (write_rest env ev). merge_key s = Some (?eid, l, kvs))
               \<longrightarrow> 1 \<le> count_nodes g' l kvs)" if "ident_key l kvs"
    using m(4)[OF that] cr(4)[OF that] by simp
qed

lemma two_calls_one_node:
  assumes h1: "handleWriteEvent env1 g ev1 = (tr1, g1, Inr r1)"
      and h2: "handleWriteEvent env2 g1 ev2 = (tr2, g2, Inr r2)"
      and k: "ident_key l kvs"
      and s1: "s1 \<in> set (write_rest env1 ev1)" "merge_key s1 = Some (episode_id env1 ev1, l, kvs)"
      and s2: "s2 \<in> set (write_rest env2 ev2)" "merge_key s2 = Some (episode_id env2 ev2, l, kvs)"
      and c: "count_nodes g l kvs \<le> 1"
  shows "count_nodes g1 l kvs = 1 \<and> count_nodes g2 l kvs = 1"
proof -
  from write_call_counts(4)[OF h1 k] s1 c have 1: "count_nodes g1 l kvs = 1"
    by (metis (no_types, lifting) le_antisym max.absorb1)
  from write_call_counts(4)[OF h2 k] 1 have "count_nodes g2 l kvs = 1" by simp
  with 1 show ?thesis by simp
qed

lemma in_write_rest:
  "s \<in> set (write_rest env ev) \<longleftrightarrow>
     (\<exists>w. ep_where ev = Some w \<and> w \<noteq> [] \<and> s = MergePlace (episode_id env ev) w)
   \<or> (\<exists>p \<in> set (ep_who ev). s \<in> set (who_stmts (episode_id env ev) p))
   \<or> (\<exists>c \<in> set (ep_why ev). s = MergeCatalyst (episode_id env ev) c)
   \<or> (\<exists>x \<in> set (ep_what_entities ev).
         s = MergeInvolvedEntity (episode_id env ev) (en_id x) (en_name x) (en_kind x)
               (str_or_null (en_meta x)))
   \<or> (\<exists>x \<in> set (ep_what_produced ev).
         s = MergeProducedEntity (episode_id env ev) (en_id x) (en_name x) (en_kind x)
               (str_or_null (en_meta x)))
   \<or> (\<exists>f \<in> set (ep_effects ev).
         s = CreateEffect (episode_id env ev) (ef_target_id f) (ef_target_kind f) (ef_summary f)
               (ef_valence f) (ef_intensity f))"
  by (auto simp: write_rest_def write_stmts_def Let_def split: option.splits)

lemma ref_person:
  assumes "\<lparr>pt_id = n, pt_type = ''person''\<rparr> \<in> set (ep_who ev)"
  shows "MergePerson (episode_id env ev) n \<in> set (write_rest env ev)"
proof -
  have "MergePerson (episode_id env ev) n
          \<in> set (who_stmts (episode_id env ev) \<lparr>pt_id = n, pt_type = ''person''\<rparr>)"
    by (simp add: who_stmts_def)
  with assms show ?thesis unfolding in_write_rest by (intro disjI2 disjI1 bexI)
qed

lemma ref_agent:
  assumes "\<lparr>pt_id = n, pt_type = ''agent''\<rparr> \<in> set (ep_who ev)"
  shows "MergeAgent (episode_id env ev) n \<in> set (write_rest env ev)"
proof -
  have "MergeAgent (episode_id env ev) n
          \<in> set (who_stmts (episode_id env ev) \<lparr>pt_id = n, pt_type = ''agent''\<rparr>)"
    by (simp add: who_stmts_def)
  with assms show ?thesis unfolding in_write_rest by (intro disjI2 disjI1 bexI)
qed

lemma ref_entity:
  assumes "x \<in> set (ep_what_entities ev @ ep_what_produced ev)"
  shows "\<exists>s \<in> set (write_rest env ev).
           merge_key s = Some (episode_id env ev, ''Entity'', [(''id'', VStr (en_id x))])"
proof (cases "x \<in> set (ep_what_entities ev)")
  case True
  then have "MergeInvolvedEntity (episode_id env ev) (en_id x) (en_name x) (en_kind x)
               (str_or_null (en_meta x)) \<in> set (write_rest env ev)"
    unfolding in_write_rest by (intro disjI2 disjI1 bexI) simp_all
  then show ?thesis by (rule bexI[rotated]) simp
next
  case False
  with assms have "x \<in> set (ep_what_produced ev)" by simp
  then have "MergeProducedEntity (episode_id env ev) (en_id x) (en_name x) (en_kind x)
               (str_or_null (en_meta x)) \<in> set (write_rest env ev)"
    unfolding in_write_rest by (intro disjI2 disjI1 bexI) simp_all
  then show ?thesis by (rule bexI[rotated]) simp
qed

lemma ref_place:
  "ep_where ev = Some w \<Longrightarrow> w \<noteq> []
     \<Longrightarrow> MergePlace (episode_id env ev) w \<in> set (write_rest env ev)"
  unfolding in_write_rest by simp

lemma ref_catalyst:
  "c \<in> set (ep_why ev) \<Longrightarrow> MergeCatalyst (episode_id env ev) c \<in> set (write_rest env ev)"
  unfolding in_write_rest by simp

lemma ref_target:
  "f \<in> set (ep_effects ev)
     \<Longrightarrow> CreateEffect (episode_id env ev) (ef_target_id f) (ef_target_kind f) (ef_summary f)
           (ef_valence f) (ef_intensity f) \<in> set (write_rest env ev)"
  unfolding in_write_rest by (intro disjI2) (rule bexI, simp_all)

lemma who_stmts_not_target:
  "s \<in> set (who_stmts eid p) \<Longrightarrow> merge_key s \<noteq> Some (eid, ''Target'', k)"
  by (cases "pt_type p = ''person''"; cases "pt_type p = ''agent''") (simp_all add: who_stmts_def)

lemma target_stmt_effect:
  assumes "s \<in> set (write_rest env ev)" and m: "merge_key s = Some (episode_id env ev, ''Target'', k)"
  shows "\<exists>f \<in> set (ep_effects ev). k = [(''id'', VStr (ef_target_id f)), (''kind'', VStr (ef_target_kind f))]"
  using assms(1) unfolding in_write_rest
proof (elim disjE exE bexE conjE)
  fix f assume "f \<in> set (ep_effects ev)"
    "s = CreateEffect (episode_id env ev) (ef_target_id f) (ef_target_kind f) (ef_summary f)
               (ef_valence f) (ef_intensity f)"
  with m show ?thesis by (intro bexI[of _ f]) simp_all
next
  fix p assume "p \<in> set (ep_who ev)" "s \<in> set (who_stmts (episode_id env ev) p)"
  with m who_stmts_not_target show ?thesis by simp
qed (use m in simp_all)

text \<open>
  Claim C8. Take two successful \<open>hippocampus_write_event\<close> calls, the second on the store
  the first leaves. When both reference the same Person name, Agent id, Entity id, Place
  name, Catalyst text or Target \<open>(id, kind)\<close>, and the store did not hold more than one such
  node before, it holds exactly one afterwards. Each call adds exactly one Event node. Each
  effect entry adds at least one Effect node, whatever its text, and exactly one when the
  store holds no duplicate of the entry's Target.
\<close>

theorem write_event_upserts:
  assumes h1: "handleWriteEvent env1 g ev1 = (tr1, g1, Inr r1)"
      and h2: "handleWriteEvent env2 g1 ev2 = (tr2, g2, Inr r2)"
  shows
   "(\<lparr>pt_id = n, pt_type = ''person''\<rparr> \<in> set (ep_who ev1)
       \<and> \<lparr>pt_id = n, pt_type = ''person''\<rparr> \<in> set (ep_who ev2)
       \<and> count_nodes g ''Person'' [(''name'', VStr n)] \<le> 1
       \<longrightarrow> count_nodes g2 ''Person'' [(''name'', VStr n)] = 1)
  \<and> (\<lparr>pt_id = a, pt_type = ''agent''\<rparr> \<in> set (ep_who ev1)
       \<and> \<lparr>pt_id = a, pt_type = ''agent''\<rparr> \<in> set (ep_who ev2)
       \<and> count_nodes g ''Agent'' [(''id'', VStr a)] \<le> 1
       \<longrightarrow> count_nodes g2 ''Agent'' [(''id'', VStr a)] = 1)
  \<and> (x1 \<in> set (ep_what_entities ev1 @ ep_what_produced ev1)
       \<and> x2 \<in> set (ep_what_entities ev2 @ ep_what_produced ev2)
       \<and> en_id x1 = i \<and> en_id x2 = i
       \<and> count_nodes g ''Entity'' [(''id'', VStr i)] \<le> 1
       \<longrightarrow> count_nodes g2 ''Entity'' [(''id'', VStr i)] = 1)
  \<and> (ep_where ev1 = Some w \<and> ep_where ev2 = Some w \<and> w \<noteq> []
       \<and> count_nodes g ''Place'' [(''name'', VStr w)] \<le> 1
       \<longrightarrow> count_nodes g2 ''Place'' [(''name'', VStr w)] = 1)
  \<and> (c \<in> set (ep_why ev1) \<and> c \<in> set (ep_why ev2)
       \<and> count_nodes g ''Catalyst'' [(''description'', VStr c)] \<le> 1
       \<longrightarrow> count_nodes g2 ''Catalyst'' [(''description'', VStr c)] = 1)
  \<and> (f1 \<in> set (ep_effects ev1) \<and> f2 \<in> set (ep_effects ev2)
       \<and> ef_target_id f1 = ti \<and> ef_target_kind f1 = tk
       \<and> ef_target_id f2 = ti \<and> ef_target_kind f2 = tk
       \<and> count_nodes g ''Target'' [(''id'', VStr ti), (''kind'', VStr tk)] \<le> 1
       \<longrightarrow> count_nodes g2 ''Target'' [(''id'', VStr ti), (''kind'', VStr tk)] = 1)
  \<and> count_nodes g1 ''Event'' [] = Suc (count_nodes g ''Event'' [])
  \<and> count_nodes g2 ''Event'' [] = Suc (count_nodes g1 ''Event'' [])
  \<and> count_nodes g ''Effect'' [] + length (ep_effects ev1) \<le> count_nodes g1 ''Effect'' []
  \<and> ((\<forall>f \<in> set (ep_effects ev1).
         count_nodes g ''Target'' [(''id'', VStr (ef_target_id f)), (''kind'', VStr (ef_target_kind f))] \<le> 1)
       \<longrightarrow> count_nodes g1 ''Effect'' [] = count_nodes g ''Effect'' [] + length (ep_effects ev1))"
proof (intro conjI impI)
  assume a: "\<lparr>pt_id = n, pt_type = ''person''\<rparr> \<in> set (ep_who ev1)
       \<and> \<lparr>pt_id = n, pt_type = ''person''\<rparr> \<in> set (ep_who ev2)
       \<and> count_nodes g ''Person'' [(''name'', VStr n)] \<le> 1"
  have k: "ident_key ''Person'' [(''name'', VStr n)]" by (simp add: ident_key_def)
  from a have r1: "MergePerson (episode_id env1 ev1) n \<in> set (write_rest env1 ev1)"
    and r2: "MergePerson (episode_id env2 ev2) n \<in> set (write_rest env2 ev2)"
    by (simp_all add: ref_person)
  from two_calls_one_node[OF h1 h2 k r1 _ r2] a
  show "count_nodes g2 ''Person'' [(''name'', VStr n)] = 1" by simp
next
  assume a: "\<lparr>pt_id = a, pt_type = ''agent''\<rparr> \<in> set (ep_who ev1)
       \<and> \<lparr>pt_id = a, pt_type = ''agent''\<rparr> \<in> set (ep_who ev2)
       \<and> count_nodes g ''Agent'' [(''id'', VStr a)] \<le> 1"
  have k: "ident_key ''Agent'' [(''id'', VStr a)]" by (simp add: ident_key_def)
  from a have r1: "MergeAgent (episode_id env1 ev1) a \<in> set (write_rest env1 ev1)"
    and r2: "MergeAgent (episode_id env2 ev2) a \<in> set (write_rest env2 ev2)"
    by (simp_all add: ref_agent)
  from two_calls_one_node[OF h1 h2 k r1 _ r2] a
  show "count_nodes g2 ''Agent'' [(''id'', VStr a)] = 1" by simp
next
  assume a: "x1 \<in> set (ep_what_entities ev1 @ ep_what_produced ev1)
       \<and> x2 \<in> set (ep_what_entities ev2 @ ep_what_produced ev2)
       \<and> en_id x1 = i \<and> en_id x2 = i
       \<and> count_nodes g ''Entity'' [(''id'', VStr i)] \<le> 1"
  have k: "ident_key ''Entity'' [(''id'', VStr i)]" by (simp add: ident_key_def)
  from a ref_entity[of x1 ev1 env1] obtain s1 where
    r1: "s1 \<in> set (write_rest env1 ev1)"
        "merge_key s1 = Some (episode_id env1 ev1, ''Entity'', [(''id'', VStr i)])" by auto
  from a ref_entity[of x2 ev2 env2] obtain s2 where
    r2: "s2 \<in> set (write_rest env2 ev2)"
        "merge_key s2 = Some (episode_id env2 ev2, ''Entity'', [(''id'', VStr i)])" by auto
  from two_calls_one_node[OF h1 h2 k r1 r2] a
  show "count_nodes g2 ''Entity'' [(''id'', VStr i)] = 1" by simp
next
  assume a: "ep_where ev1 = Some w \<and> ep_where ev2 = Some w \<and> w \<noteq> []
       \<and> count_nodes g ''Place'' [(''name'', VStr w)] \<le> 1"
  have k: "ident_key ''Place'' [(''name'', VStr w)]" by (simp add: ident_key_def)
  from a have r1: "MergePlace (episode_id env1 ev1) w \<in> set (write_rest env1 ev1)"
    and r2: "MergePlace (episode_id env2 ev2) w \<in> set (write_rest env2 ev2)"
    by (simp_all add: ref_place)
  from two_calls_one_node[OF h1 h2 k r1 _ r2] a
  show "count_nodes g2 ''Place'' [(''name'', VStr w)] = 1" by simp
next
  assume a: "c \<in> set (ep_why ev1) \<and> c \<in> set (ep_why ev2)
       \<and> count_nodes g ''Catalyst'' [(''description'', VStr c)] \<le> 1"
  have k: "ident_key ''Catalyst'' [(''description'', VStr c)]" by (simp add: ident_key_def)
  from a have r1: "MergeCatalyst (episode_id env1 ev1) c \<in> set (write_rest env1 ev1)"
    and r2: "MergeCatalyst (episode_id env2 ev2) c \<in> set (write_rest env2 ev2)"
    by (simp_all add: ref_catalyst)
  from two_calls_one_node[OF h1 h2 k r1 _ r2] a
  show "count_nodes g2 ''Catalyst'' [(''description'', VStr c)] = 1" by simp
next
  assume a: "f1 \<in> set (ep_effects ev1) \<and> f2 \<in> set (ep_effects ev2)
       \<and> ef_target_id f1 = ti \<and> ef_target_kind f1 = tk
       \<and> ef_target_id f2 = ti \<and> ef_target_kind f2 = tk
       \<and> count_nodes g ''Target'' [(''id'', VStr ti), (''kind'', VStr tk)] \<le> 1"
  have k: "ident_key ''Target'' [(''id'', VStr ti), (''kind'', VStr tk)]" by (simp add: ident_key_def)
  from a ref_target[of f1 ev1 env1]
  have r1: "CreateEffect (episode_id env1 ev1) ti tk (ef_summary f1) (ef_valence f1) (ef_intensity f1)
             \<in> set (write_rest env1 ev1)" by auto
  from a ref_target[of f2 ev2 env2]
  have r2: "CreateEffect (episode_id env2 ev2) ti tk (ef_summary f2) (ef_valence f2) (ef_intensity f2)
             \<in> set (write_rest env2 ev2)" by auto
  from two_calls_one_node[OF h1 h2 k r1 _ r2] a
  show "count_nodes g2 ''Target'' [(''id'', VStr ti), (''kind'', VStr tk)] = 1" by simp
next
  show "count_nodes g1 ''Event'' [] = Suc (count_nodes g ''Event'' [])"
    by (rule write_call_counts(1)[OF h1])
  show "count_nodes g2 ''Event'' [] = Suc (count_nodes g1 ''Event'' [])"
    by (rule write_call_counts(1)[OF h2])
  show "count_nodes g ''Effect'' [] + length (ep_effects ev1) \<le> count_nodes g1 ''Effect'' []"
    by (rule write_call_counts(2)[OF h1])
next
  assume u: "\<forall>f \<in> set (ep_effects ev1).
         count_nodes g ''Target'' [(''id'', VStr (ef_target_id f)), (''kind'', VStr (ef_target_kind f))] \<le> 1"
  have "\<forall>s \<in> set (write_rest env1 ev1). \<forall>k. merge_key s = Some (episode_id env1 ev1, ''Target'', k)
            \<longrightarrow> count_nodes g ''Target'' k \<le> 1"
  proof (intro ballI allI impI)
    fix s k assume "s \<in> set (write_rest env1 ev1)" "merge_key s = Some (episode_id env1 ev1, ''Target'', k)"
    from target_stmt_effect[OF this] u show "count_nodes g ''Target'' k \<le> 1" by auto
  qed
  from write_call_counts(3)[OF h1 this]
  show "count_nodes g1 ''Effect'' [] = count_nodes g ''Effect'' [] + length (ep_effects ev1)" .
qed


lemma triple_collapse:
  "\<not> isl (snd (snd x)) \<Longrightarrow> x = (fst x, fst (snd x), Inr (projr (snd (snd x))))"
  by (cases x) (auto simp: isl_def)

text \<open>The theorem at two calls with the same episode on the empty store.\<close>

theorem write_event_upserts_witness:
  "\<not> isl (snd (snd (handleWriteEvent env_ok empty_graph retro)))
   \<and> \<not> isl (snd (snd (handleWriteEvent env_second
               (fst (snd (handleWriteEvent env_ok empty_graph retro))) retro)))
   \<and> \<lparr>pt_id = ''Alice'', pt_type = ''person''\<rparr> \<in> set (ep_who retro)
   \<and> \<lparr>pt_id = ''bot'', pt_type = ''agent''\<rparr> \<in> set (ep_who retro)
   \<and> ep_where retro = Some ''HQ'' \<and> ''deadline'' \<in> set (ep_why retro)
   \<and> map en_id (ep_what_entities retro) = [''m1'']
   \<and> map (\<lambda>f. (ef_target_id f, ef_target_kind f)) (ep_effects retro) = [(''team'', ''GROUP'')]
   \<and> count_nodes empty_graph ''Person'' [(''name'', VStr ''Alice'')] = 0
   \<and> count_nodes empty_graph ''Target'' [(''id'', VStr ''team''), (''kind'', VStr ''GROUP'')] = 0
   \<and> count_nodes (fst (snd (handleWriteEvent env_second
               (fst (snd (handleWriteEvent env_ok empty_graph retro))) retro)))
         ''Person'' [(''name'', VStr ''Alice'')] = 1
   \<and> count_nodes (fst (snd (handleWriteEvent env_second
               (fst (snd (handleWriteEvent env_ok empty_graph retro))) retro)))
         ''Agent'' [(''id'', VStr ''bot'')] = 1
   \<and> count_nodes (fst (snd (handleWriteEvent env_second
               (fst (snd (handleWriteEvent env_ok empty_graph retro))) retro)))
         ''Entity'' [(''id'', VStr ''m1'')] = 1
   \<and> count_nodes (fst (snd (handleWriteEvent env_second
               (fst (snd (handleWriteEvent env_ok empty_graph retro))) retro)))
         ''Place'' [(''name'', VStr ''HQ'')] = 1
   \<and> count_nodes (fst (snd (handleWriteEvent env_second
               (fst (snd (handleWriteEvent env_ok empty_graph retro))) retro)))
         ''Catalyst'' [(''description'', VStr ''deadline'')] = 1
   \<and> count_nodes (fst (snd (handleWriteEvent env_second
               (fst (snd (handleWriteEvent env_ok empty_graph retro))) retro)))
         ''Target'' [(''id'', VStr ''team''), (''kind'', VStr ''GROUP'')] = 1
   \<and> count_nodes (fst (snd (handleWriteEvent env_second
               (fst (snd (handleWriteEvent env_ok empty_graph retro))) retro))) ''Event'' [] = 2
   \<and> count_nodes (fst (snd (handleWriteEvent env_ok empty_graph retro))) ''Effect'' [] = 1"
proof -
  let ?X = "handleWriteEvent env_ok empty_graph retro"
  let ?G1 = "fst (snd ?X)"
  let ?Y = "handleWriteEvent env_second ?G1 retro"
  let ?G2 = "fst (snd ?Y)"
  have ok1: "\<not> isl (snd (snd ?X))" by code_simp
  have ok2: "\<not> isl (snd (snd ?Y))" by code_simp
  note h1 = triple_collapse[OF ok1] and h2 = triple_collapse[OF ok2]
  have who: "\<lparr>pt_id = ''Alice'', pt_type = ''person''\<rparr> \<in> set (ep_who retro)"
       "\<lparr>pt_id = ''bot'', pt_type = ''agent''\<rparr> \<in> set (ep_who retro)"
    and wh: "ep_where retro = Some ''HQ''" "''HQ'' \<noteq> []" and why: "''deadline'' \<in> set (ep_why retro)"
    and ent: "\<lparr>en_id = ''m1'', en_name = ''parser'', en_kind = ''module'', en_meta = None\<rparr>
                \<in> set (ep_what_entities retro @ ep_what_produced retro)"
    and ent1: "\<lparr>en_id = ''m1'', en_name = ''parser'', en_kind = ''module'', en_meta = None\<rparr>
                \<in> set (ep_what_entities retro)"
    and eff: "\<lparr>ef_summary = ''relief'', ef_valence = ''positive'', ef_intensity = 1 / 2,
                       ef_target_id = ''team'', ef_target_kind = ''GROUP''\<rparr> \<in> set (ep_effects retro)"
    and effs: "ep_effects retro = [\<lparr>ef_summary = ''relief'', ef_valence = ''positive'', ef_intensity = 1 / 2,
                       ef_target_id = ''team'', ef_target_kind = ''GROUP''\<rparr>]"
    and proj: "map en_id (ep_what_entities retro) = [''m1'']"
       "map (\<lambda>f. (ef_target_id f, ef_target_kind f)) (ep_effects retro) = [(''team'', ''GROUP'')]"
    by (simp_all add: retro_def)
  have c0: "count_nodes empty_graph l kvs = 0" for l kvs
    by (simp add: count_nodes_def match_nodes_def all_nodes_def empty_graph_def)
  note t = write_event_upserts[OF h1 h2,
      where n = "''Alice''" and a = "''bot''" and i = "''m1''" and w = "''HQ''" and c = "''deadline''"
        and ti = "''team''" and tk = "''GROUP''"
        and ?x1.0 = "\<lparr>en_id = ''m1'', en_name = ''parser'', en_kind = ''module'', en_meta = None\<rparr>"
        and ?x2.0 = "\<lparr>en_id = ''m1'', en_name = ''parser'', en_kind = ''module'', en_meta = None\<rparr>"
        and ?f1.0 = "\<lparr>ef_summary = ''relief'', ef_valence = ''positive'', ef_intensity = 1 / 2,
                       ef_target_id = ''team'', ef_target_kind = ''GROUP''\<rparr>"
        and ?f2.0 = "\<lparr>ef_summary = ''relief'', ef_valence = ''positive'', ef_intensity = 1 / 2,
                       ef_target_id = ''team'', ef_target_kind = ''GROUP''\<rparr>"]
  have res: "count_nodes ?G2 ''Person'' [(''name'', VStr ''Alice'')] = 1
     \<and> count_nodes ?G2 ''Agent'' [(''id'', VStr ''bot'')] = 1
     \<and> count_nodes ?G2 ''Entity'' [(''id'', VStr ''m1'')] = 1
     \<and> count_nodes ?G2 ''Place'' [(''name'', VStr ''HQ'')] = 1
     \<and> count_nodes ?G2 ''Catalyst'' [(''description'', VStr ''deadline'')] = 1
     \<and> count_nodes ?G2 ''Target'' [(''id'', VStr ''team''), (''kind'', VStr ''GROUP'')] = 1
     \<and> count_nodes ?G2 ''Event'' [] = 2
     \<and> count_nodes ?G1 ''Effect'' [] = 1"
    using t who wh why ent1 eff by (simp add: c0 effs)
  show ?thesis using ok1 ok2 who wh why proj res by (simp add: c0)
qed

section \<open>Properties of \<open>handleRecallMemory\<close>\<close>



lemma set_insert_by [simp]: "set (insert_by le x xs) = insert x (set xs)"
  by (induction xs) auto

lemma length_insert_by [simp]: "length (insert_by le x xs) = Suc (length xs)"
  by (induction xs) auto


lemma set_sort_by [simp]: "set (sort_by le xs) = set xs"
  by (induction xs) (simp_all add: sort_by_def)

lemma length_sort_by [simp]: "length (sort_by le xs) = length xs"
  by (induction xs) (simp_all add: sort_by_def)




lemma join_subset:
  "eval_rclause env g lmt (InvolvesJoin ids) rows = Inr rows' \<Longrightarrow> set rows' \<subseteq> set rows"
  by auto

lemma where_subset:
  "eval_rclause env g lmt (WhereAnd ps) rows = Inr rows' \<Longrightarrow> set rows' \<subseteq> set rows"
  by auto


lemma set_nub [simp]: "set (nub xs) = set xs"
  by (simp add: nub_def)













lemma distinct_nub [simp]: "distinct (nub xs)"
  by (simp add: nub_def)




section \<open>The size bound of the two retrieval handlers\<close>










text \<open>
  Claim C5 at two combinations of filters. In \<open>recall_memory\<close> the entity filter alone and
  the significance floor alone each return their Events, but together the query text has
  a \<open>WHERE\<close> line after the \<open>WHERE\<close> of the entity join, and the store refuses it. The
  same happens in \<open>hippocampus_search_events\<close> with a participant filter and a place.
\<close>

theorem filters_with_join_rejected:
  "map m_id (memories (projr (handleRecallMemory env_ok two_memories
       (recall_all\<lparr>rc_involves_entities := Some [''A'']\<rparr>)))) = [VStr ''e1'', VStr ''e2'']
   \<and> map m_id (memories (projr (handleRecallMemory env_ok two_memories
       (recall_all\<lparr>rc_significance_threshold := Some (1 / 2)\<rparr>)))) = [VStr ''e1'']
   \<and> handleRecallMemory env_ok two_memories
       (recall_all\<lparr>rc_involves_entities := Some [''A''],
                    rc_significance_threshold := Some (1 / 2)\<rparr>) = Inl SyntaxError
   \<and> map sv_id (events (projr (handleSearchEvents env_ok two_episodes
       (search_all\<lparr>sa_participants := Some [''Alice'']\<rparr>)))) = [VStr ''e2'', VStr ''e1'']
   \<and> map sv_id (events (projr (handleSearchEvents env_ok two_episodes
       (search_all\<lparr>sa_place := Some ''HQ''\<rparr>)))) = [VStr ''e2'', VStr ''e1'']
   \<and> handleSearchEvents env_ok two_episodes
       (search_all\<lparr>sa_participants := Some [''Alice''], sa_place := Some ''HQ''\<rparr>)
       = Inl SyntaxError"
  by code_simp


section \<open>Properties of \<open>handleSearchEvents\<close> without filters\<close>

lemma nub_Nil [simp]: "nub [] = []"
  by (simp add: nub_def)








lemma distinct_insert_by: "distinct (insert_by le x xs) = (x \<notin> set xs \<and> distinct xs)"
  by (induction xs) auto

lemma sort_by_Cons: "sort_by le (x # xs) = insert_by le x (sort_by le xs)"
  by (simp add: sort_by_def)

lemma distinct_sort_by [simp]: "distinct (sort_by le xs) = distinct xs"
proof (induction xs)
  case Nil
  show ?case by (simp add: sort_by_def)
next
  case (Cons x xs)
  then show ?case by (simp add: sort_by_Cons distinct_insert_by)
qed

lemma opt_nonempty [simp]: "opt n xs \<noteq> []"
  by (simp add: opt_def)


lemma rows_of_event: "r \<in> set (rows_of g e) \<Longrightarrow> s_e r = e"
  by (auto simp: rows_of_def)

lemma rows_of_place: "r \<in> set (rows_of g e) \<Longrightarrow> s_place r \<in> set (opt VNull (places_of g e))"
  by (auto simp: rows_of_def)



lemma hd_opt [simp]: "hd (opt n xs) \<in> set (opt n xs)"
  by (simp add: opt_def)



















end
